theory Spec2Isabelle
  imports Main
begin

section \<open>Data model (types.ts)\<close>

text \<open>
  \<^verbatim>\<open>PlatformKey\<close> and the \<^verbatim>\<open>status\<close> field are closed unions of string literals; they
  become datatypes. The two aspect-ratio tokens \<^verbatim>\<open>'16:9'\<close> and \<^verbatim>\<open>'1:1'\<close> are not
  identifiers and are spelled out.
\<close>

datatype PlatformKey = linkedin | twitter | instagram | blog

datatype Status = idle | loading | success | error

datatype AspectRatio = ratio_16_9 | ratio_1_1

text \<open>
  \<^verbatim>\<open>interface ImageState\<close>: the three optional fields are \<open>None\<close> when the property is
  missing or \<^verbatim>\<open>undefined\<close>.
\<close>

record ImageState =
  status :: Status
  imageUrl :: "string option"
  prompt :: "string option"
  errorMsg :: "string option"

text \<open>
  \<^verbatim>\<open>Partial<ImageState>\<close>, the second argument of \<^verbatim>\<open>updateImageState\<close>. For every
  field the outer \<open>None\<close> says that the object literal does not mention the property; for
  the optional fields \<open>Some None\<close> is a property written as \<^verbatim>\<open>undefined\<close>
  (as in \<^verbatim>\<open>{ status: 'idle', errorMsg: undefined }\<close>), which the spread copies.
\<close>

record PartialImageState =
  new_status :: "Status option"
  new_imageUrl :: "string option option"
  new_prompt :: "string option option"
  new_errorMsg :: "string option option"

text \<open>\<^verbatim>\<open>{ ...prev[key], ...newState }\<close>\<close>

definition spread :: "ImageState \<Rightarrow> PartialImageState \<Rightarrow> ImageState" where
  "spread prev newState =
     \<lparr> status = (case new_status newState of None \<Rightarrow> status prev | Some s \<Rightarrow> s),
       imageUrl = (case new_imageUrl newState of None \<Rightarrow> imageUrl prev | Some v \<Rightarrow> v),
       prompt = (case new_prompt newState of None \<Rightarrow> prompt prev | Some v \<Rightarrow> v),
       errorMsg = (case new_errorMsg newState of None \<Rightarrow> errorMsg prev | Some v \<Rightarrow> v) \<rparr>"

text \<open>
  \<^verbatim>\<open>interface VisualPrompts\<close>: \<^verbatim>\<open>platforms\<close> has exactly the four keys, each a string;
  the code reads it as \<^verbatim>\<open>visualPrompts.platforms[p.key]\<close>.
\<close>

record VisualPrompts =
  visualStyleSeed :: string
  platforms :: "PlatformKey \<Rightarrow> string"

record PlatformConfig =
  key :: PlatformKey
  label :: string
  aspectRatioLabel :: string
  apiAspectRatio :: AspectRatio
  description :: string

definition PLATFORMS :: "PlatformConfig list" where
  "PLATFORMS =
     [ \<lparr> key = linkedin, label = ''LinkedIn Cover'',
         aspectRatioLabel = ''3:1 (Generated as 16:9)'', apiAspectRatio = ratio_16_9,
         description = ''Safe zone: Subject in right third. Bottom-left blocked.'' \<rparr>,
       \<lparr> key = twitter, label = ''X / Twitter Header'',
         aspectRatioLabel = ''3:1 (Generated as 16:9)'', apiAspectRatio = ratio_16_9,
         description = ''Focus centered/right. Bottom-left overlap.'' \<rparr>,
       \<lparr> key = instagram, label = ''Instagram Post'',
         aspectRatioLabel = ''1:1'', apiAspectRatio = ratio_1_1,
         description = ''Centered composition. Square format.'' \<rparr>,
       \<lparr> key = blog, label = ''Blog Header'',
         aspectRatioLabel = ''16:9'', apiAspectRatio = ratio_16_9,
         description = ''Cinematic wide shot. Text-safe bottom area.'' \<rparr> ]"

section \<open>Thrown values and the quota test of withRetry\<close>

text \<open>
  The retry helper catches \<^verbatim>\<open>error: any\<close> and inspects four properties of it. What a
  property holds is kept as far as the comparisons of the source can tell: a number, a
  string, or anything else. \<open>Undefined\<close> is a thrown \<^verbatim>\<open>undefined\<close> or \<^verbatim>\<open>null\<close>, on which
  every \<^verbatim>\<open>error?.x\<close> is \<^verbatim>\<open>undefined\<close>. In \<open>ErrorObject\<close> the last field is \<open>Some c\<close>
  when \<^verbatim>\<open>error.error\<close> is truthy and \<^verbatim>\<open>error.error.code\<close> is \<open>c\<close>, and \<open>None\<close> when
  \<^verbatim>\<open>error.error\<close> is falsy. The message is a string or missing.
\<close>

datatype jsval = JUndefined | JNum int | JStr string

datatype thrown =
    Undefined
  | ErrorObject (err_status: jsval) (err_code: jsval) (err_message: "string option")
      (err_error: "jsval option")

text \<open>\<^verbatim>\<open>new Error(msg)\<close>\<close>

definition Error :: "string \<Rightarrow> thrown" where
  "Error msg = ErrorObject JUndefined JUndefined (Some msg) None"

text \<open>\<^verbatim>\<open>String.prototype.includes\<close>: \<open>sub\<close> occurs in \<open>s\<close> at some position.\<close>

fun str_includes :: "string \<Rightarrow> string \<Rightarrow> bool" where
  "str_includes [] sub = (sub = [])"
| "str_includes (c # cs) sub = (take (length sub) (c # cs) = sub \<or> str_includes cs sub)"

definition isQuotaError :: "thrown \<Rightarrow> bool" where
  "isQuotaError e =
     (case e of
        Undefined \<Rightarrow> False
      | ErrorObject st cd msg inner \<Rightarrow>
          st = JNum 429 \<or>
          cd = JNum 429 \<or>
          (case msg of None \<Rightarrow> False | Some m \<Rightarrow> str_includes m ''429'') \<or>
          (case msg of None \<Rightarrow> False | Some m \<Rightarrow> str_includes m ''quota'') \<or>
          (case msg of None \<Rightarrow> False | Some m \<Rightarrow> str_includes m ''RESOURCE_EXHAUSTED'') \<or>
          st = JStr ''RESOURCE_EXHAUSTED'' \<or>
          (case inner of None \<Rightarrow> False | Some c \<Rightarrow> c = JNum 429))"

section \<open>The backend and the observable world\<close>

text \<open>
  A request to \<^verbatim>\<open>ai.models.generateContent\<close>. \<open>PromptConfig\<close> stands for the constant
  configuration of the prompt call (system instruction, JSON mime type and response schema),
  \<open>ImageConfig\<close> carries the aspect ratio of the image call.
\<close>

datatype request_part = TextPart string | InlineData string string

datatype request_config = PromptConfig | ImageConfig AspectRatio

record request =
  model :: string
  parts :: "request_part list"
  config :: request_config

text \<open>
  What the code reads of a response: \<^verbatim>\<open>response.text\<close> and
  \<^verbatim>\<open>response.candidates?.[0]?.content?.parts\<close> (\<open>None\<close> when any link of the chain is
  missing). A response part either has no \<^verbatim>\<open>inlineData\<close> or has one with an optional
  mime type and optional data.
\<close>

datatype response_part = OtherPart | InlineDataPart "string option" "string option"

record response =
  resp_text :: "string option"
  resp_parts :: "response_part list option"

datatype api_call =
    GenerateVisualPrompts string "string option"
  | GenerateImage string AspectRatio "string option"

datatype api_result = Prompts VisualPrompts | Image string

text \<open>
  Everything the program does to the outside, in the order it happens: the state updates of
  the component, the calls of the two service functions as seen from the component
  (\<open>Invoke\<close> when the call is made, \<open>Settled\<close> when its promise resolves or rejects), the
  requests sent to the backend with their responses, and the timer waits
  (\<^verbatim>\<open>await new Promise(resolve => setTimeout(resolve, ms))\<close>). Console output is not
  recorded.
\<close>

datatype event =
    SetImages PlatformKey PartialImageState
  | SetIsAnalyzing bool
  | Invoke api_call
  | Settled "thrown + api_result"
  | Request request
  | Response "thrown + response"
  | Wait int

record world =
  images :: "PlatformKey \<Rightarrow> ImageState"
  isAnalyzing :: bool
  trace :: "event list"

text \<open>
  The backend is outside the repository: it is a parameter, a function of the number of
  requests already sent and of the request. \<^verbatim>\<open>JSON.parse\<close> followed by the unchecked
  cast \<^verbatim>\<open>as VisualPrompts\<close> is a parameter as well.
\<close>

type_synonym backend = "nat \<Rightarrow> request \<Rightarrow> thrown + response"

type_synonym json_parse = "string \<Rightarrow> thrown + VisualPrompts"

fun is_Request :: "event \<Rightarrow> bool" where
  "is_Request (Request rq) = True"
| "is_Request e = False"

definition log :: "event \<Rightarrow> world \<Rightarrow> world" where
  "log e w = w\<lparr>trace := trace w @ [e]\<rparr>"

definition wait :: "int \<Rightarrow> world \<Rightarrow> world" where
  "wait ms w = log (Wait ms) w"

definition generateContent ::
  "backend \<Rightarrow> request \<Rightarrow> world \<Rightarrow> (thrown + response) \<times> world" where
  "generateContent be rq w =
     (let r = be (length (filter is_Request (trace w))) rq
      in (r, log (Response r) (log (Request rq) w)))"

section \<open>services/geminiService.ts\<close>

text \<open>
  \<^verbatim>\<open>base64String.match(/^data:(.+);base64,(.+)$/)\<close>. Without flags, \<^verbatim>\<open>^\<close> and \<^verbatim>\<open>$\<close>
  are the two ends of the string and \<^verbatim>\<open>.\<close> is any character but a line terminator, so
  the whole string is \<^verbatim>\<open>data:\<close>, a non-empty group, \<^verbatim>\<open>;base64,\<close>, a non-empty group,
  with no line terminator anywhere. The first group is greedy: it ends at the last place
  where \<^verbatim>\<open>;base64,\<close> occurs with something after it.
\<close>

definition line_terminator :: "char \<Rightarrow> bool" where
  "line_terminator c = (c = CHR 0x0A \<or> c = CHR 0x0D)"

definition parseBase64 :: "string \<Rightarrow> (string \<times> string) option" where
  "parseBase64 base64String =
     (let rest = drop 5 base64String in
      if take 5 base64String = ''data:'' \<and> \<not> list_ex line_terminator rest
      then (case List.find (\<lambda>i. take 8 (drop i rest) = '';base64,'')
                   (rev [1 ..< length rest - 8]) of
              None \<Rightarrow> None
            | Some i \<Rightarrow> Some (take i rest, drop (i + 8) rest))
      else None)"

text \<open>
  \<^verbatim>\<open>withRetry(operation, retries = 3, initialDelay = 2000)\<close>. The operation is
  effectful, so it takes the world and returns it. The loop variable \<open>i\<close> counts from 0;
  \<open>lastError\<close> starts as \<^verbatim>\<open>undefined\<close>. The two numbers are integers here.
\<close>

function withRetry_loop ::
  "(world \<Rightarrow> (thrown + 'a) \<times> world) \<Rightarrow> int \<Rightarrow> int \<Rightarrow> nat \<Rightarrow> thrown \<Rightarrow> world
     \<Rightarrow> (thrown + 'a) \<times> world" where
  "withRetry_loop operation retries initialDelay i lastError w =
     (if int i < retries then
        (case operation w of
           (Inr v, w1) \<Rightarrow> (Inr v, w1)
         | (Inl e, w1) \<Rightarrow>
             if isQuotaError e \<and> int i < retries - 1
             then withRetry_loop operation retries initialDelay (i + 1) e
                    (wait (initialDelay * 2 ^ i) w1)
             else (Inl e, w1))
      else (Inl lastError, w))"
  by pat_completeness auto
termination
  by (relation "measure (\<lambda>(operation, retries, initialDelay, i, lastError, w).
        nat (retries - int i))") auto

declare withRetry_loop.simps [simp del]

definition withRetry ::
  "(world \<Rightarrow> (thrown + 'a) \<times> world) \<Rightarrow> int \<Rightarrow> int \<Rightarrow> world \<Rightarrow> (thrown + 'a) \<times> world" where
  "withRetry operation retries initialDelay w =
     withRetry_loop operation retries initialDelay 0 Undefined w"

text \<open>
  The \<^verbatim>\<open>parts\<close> array both service functions build: the text, then the inline image when
  the argument is truthy (present and not the empty string) and \<^verbatim>\<open>parseBase64\<close> matches.
\<close>

definition request_parts :: "string \<Rightarrow> string option \<Rightarrow> request_part list" where
  "request_parts txt imageBase64 =
     [TextPart txt] @
     (case imageBase64 of
        None \<Rightarrow> []
      | Some s \<Rightarrow>
          if s = [] then []
          else (case parseBase64 s of
                  None \<Rightarrow> []
                | Some (mimeType, dat) \<Rightarrow> [InlineData mimeType dat]))"

text \<open>
  The body passed to \<^verbatim>\<open>withRetry\<close> by \<^verbatim>\<open>generateVisualPrompts\<close>. Its inner
  \<^verbatim>\<open>catch\<close> logs to the console and rethrows.
\<close>

definition generateVisualPrompts_attempt ::
  "backend \<Rightarrow> json_parse \<Rightarrow> string \<Rightarrow> string option \<Rightarrow> world
     \<Rightarrow> (thrown + VisualPrompts) \<times> world" where
  "generateVisualPrompts_attempt be JSON_parse userContext imageBase64 w =
     (case generateContent be
             \<lparr> model = ''gemini-3-flash-preview'',
               parts = request_parts userContext imageBase64,
               config = PromptConfig \<rparr> w of
        (Inl e, w1) \<Rightarrow> (Inl e, w1)
      | (Inr r, w1) \<Rightarrow>
          (case resp_text r of
             None \<Rightarrow> (Inl (Error ''No text returned from Gemini''), w1)
           | Some t \<Rightarrow>
               if t = [] then (Inl (Error ''No text returned from Gemini''), w1)
               else (JSON_parse t, w1)))"

definition generateVisualPrompts ::
  "backend \<Rightarrow> json_parse \<Rightarrow> string \<Rightarrow> string option \<Rightarrow> world
     \<Rightarrow> (thrown + VisualPrompts) \<times> world" where
  "generateVisualPrompts be JSON_parse userContext imageBase64 w =
     withRetry (generateVisualPrompts_attempt be JSON_parse userContext imageBase64) 3 2000 w"

text \<open>
  \<^verbatim>\<open>part.inlineData && part.inlineData.data\<close>: the part has inline data whose data is a
  non-empty string. A missing mime type prints as \<^verbatim>\<open>undefined\<close> in the template literal.
\<close>

fun image_of_part :: "response_part \<Rightarrow> string option" where
  "image_of_part OtherPart = None"
| "image_of_part (InlineDataPart mimeType None) = None"
| "image_of_part (InlineDataPart mimeType (Some dat)) =
     (if dat = [] then None
      else Some (''data:'' @ (case mimeType of None \<Rightarrow> ''undefined'' | Some m \<Rightarrow> m)
                   @ '';base64,'' @ dat))"

fun first_image :: "response_part list \<Rightarrow> string option" where
  "first_image [] = None"
| "first_image (p # ps) =
     (case image_of_part p of Some url \<Rightarrow> Some url | None \<Rightarrow> first_image ps)"

definition generateImage_attempt ::
  "backend \<Rightarrow> string \<Rightarrow> AspectRatio \<Rightarrow> string option \<Rightarrow> world
     \<Rightarrow> (thrown + string) \<times> world" where
  "generateImage_attempt be prm aspectRatio referenceImageBase64 w =
     (case generateContent be
             \<lparr> model = ''gemini-2.5-flash-image'',
               parts = request_parts prm referenceImageBase64,
               config = ImageConfig aspectRatio \<rparr> w of
        (Inl e, w1) \<Rightarrow> (Inl e, w1)
      | (Inr r, w1) \<Rightarrow>
          (case resp_parts r of
             None \<Rightarrow> (Inl (Error ''No content parts returned''), w1)
           | Some responseParts \<Rightarrow>
               (case first_image responseParts of
                  Some url \<Rightarrow> (Inr url, w1)
                | None \<Rightarrow> (Inl (Error ''No image data found in response''), w1))))"

definition generateImage ::
  "backend \<Rightarrow> string \<Rightarrow> AspectRatio \<Rightarrow> string option \<Rightarrow> world
     \<Rightarrow> (thrown + string) \<times> world" where
  "generateImage be prm aspectRatio referenceImageBase64 w =
     withRetry (generateImage_attempt be prm aspectRatio referenceImageBase64) 3 2000 w"

section \<open>The component: state updates and the pipeline\<close>

text \<open>
  \<^verbatim>\<open>setImages(prev => ({ ...prev, [key]: { ...prev[key], ...newState } }))\<close>. Every update
  of the component is a functional update, so the updates apply in the order they are made.
\<close>

definition updateImageState :: "PlatformKey \<Rightarrow> PartialImageState \<Rightarrow> world \<Rightarrow> world" where
  "updateImageState k newState w =
     log (SetImages k newState)
       (w\<lparr>images := (images w)(k := spread (images w k) newState)\<rparr>)"

definition setIsAnalyzing :: "bool \<Rightarrow> world \<Rightarrow> world" where
  "setIsAnalyzing b w = log (SetIsAnalyzing b) (w\<lparr>isAnalyzing := b\<rparr>)"

text \<open>\<^verbatim>\<open>selectedImage || undefined\<close>: \<^verbatim>\<open>null\<close> and the empty string become \<^verbatim>\<open>undefined\<close>.\<close>

definition or_undefined :: "string option \<Rightarrow> string option" where
  "or_undefined selectedImage =
     (case selectedImage of None \<Rightarrow> None | Some s \<Rightarrow> if s = [] then None else Some s)"

text \<open>
  \<^verbatim>\<open>String.prototype.trim\<close> on the characters a \<open>char\<close> can be: tab, line feed, vertical
  tab, form feed, carriage return, space and the no-break space.
\<close>

definition white_space :: "char \<Rightarrow> bool" where
  "white_space c = (c \<in> set [CHR 0x09, CHR 0x0A, CHR 0x0B, CHR 0x0C, CHR 0x0D, CHR 0x20, CHR 0xA0])"

definition trim :: "string \<Rightarrow> string" where
  "trim s = rev (dropWhile white_space (rev (dropWhile white_space s)))"

definition reset_state :: PartialImageState where
  "reset_state = \<lparr> new_status = Some idle, new_imageUrl = None, new_prompt = None,
                   new_errorMsg = Some None \<rparr>"

definition loading_state :: "string \<Rightarrow> PartialImageState" where
  "loading_state prm = \<lparr> new_status = Some loading, new_imageUrl = None,
                         new_prompt = Some (Some prm), new_errorMsg = None \<rparr>"

definition success_state :: "string \<Rightarrow> PartialImageState" where
  "success_state base64Image = \<lparr> new_status = Some success,
                                 new_imageUrl = Some (Some base64Image),
                                 new_prompt = None, new_errorMsg = None \<rparr>"

definition error_state :: "string \<Rightarrow> PartialImageState" where
  "error_state msg = \<lparr> new_status = Some error, new_imageUrl = None, new_prompt = None,
                       new_errorMsg = Some (Some msg) \<rparr>"

text \<open>The state written when the promise of \<^verbatim>\<open>generateImage\<close> settles.\<close>

definition settled_state :: "thrown + string \<Rightarrow> PartialImageState" where
  "settled_state r =
     (case r of Inr base64Image \<Rightarrow> success_state base64Image
              | Inl e \<Rightarrow> error_state ''Generation failed.'')"

definition triggerImageGeneration ::
  "backend \<Rightarrow> PlatformKey \<Rightarrow> string \<Rightarrow> AspectRatio \<Rightarrow> string option \<Rightarrow> world \<Rightarrow> world" where
  "triggerImageGeneration be k prm aspectRatio refImage w =
     (let w1 = updateImageState k (loading_state prm) w;
          w2 = log (Invoke (GenerateImage prm aspectRatio refImage)) w1;
          (r, w3) = generateImage be prm aspectRatio refImage w2;
          w4 = log (Settled (map_sum id Image r)) w3
      in updateImageState k (settled_state r) w4)"

text \<open>
  \<^verbatim>\<open>handleGenerateAll\<close>. \<open>derivation_call\<close> is the world at the moment the component calls
  \<^verbatim>\<open>generateVisualPrompts\<close>: after \<^verbatim>\<open>setIsAnalyzing(true)\<close> and the reset of the four
  states. \<open>render_all\<close> is the \<^verbatim>\<open>for ... of\<close> loop with its two awaits.
\<close>

definition guard_generateAll :: "string \<Rightarrow> string option \<Rightarrow> bool" where
  "guard_generateAll userInput selectedImage =
     (trim userInput = [] \<and> or_undefined selectedImage = None)"

definition derivation_call :: "string \<Rightarrow> string option \<Rightarrow> world \<Rightarrow> world" where
  "derivation_call userInput selectedImage w =
     log (Invoke (GenerateVisualPrompts userInput (or_undefined selectedImage)))
       (fold (\<lambda>p. updateImageState (key p) reset_state) PLATFORMS
          (setIsAnalyzing True w))"

definition render_all ::
  "backend \<Rightarrow> VisualPrompts \<Rightarrow> string option \<Rightarrow> world \<Rightarrow> world" where
  "render_all be visualPrompts selectedImage w =
     fold (\<lambda>platform w'.
             wait 1500
               (triggerImageGeneration be (key platform)
                  (platforms visualPrompts (key platform)) (apiAspectRatio platform)
                  (or_undefined selectedImage) w'))
       PLATFORMS w"

definition handleGenerateAll ::
  "backend \<Rightarrow> json_parse \<Rightarrow> string \<Rightarrow> string option \<Rightarrow> world \<Rightarrow> world" where
  "handleGenerateAll be JSON_parse userInput selectedImage w =
     (if guard_generateAll userInput selectedImage then w
      else
        (case generateVisualPrompts be JSON_parse userInput (or_undefined selectedImage)
                (derivation_call userInput selectedImage w) of
           (Inr visualPrompts, w1) \<Rightarrow>
             render_all be visualPrompts selectedImage
               (fold (\<lambda>p. updateImageState (key p)
                             (loading_state (platforms visualPrompts (key p))))
                  PLATFORMS
                  (setIsAnalyzing False (log (Settled (Inr (Prompts visualPrompts))) w1)))
         | (Inl e, w1) \<Rightarrow>
             fold (\<lambda>p. updateImageState (key p) (error_state ''Failed to analyze context.''))
               PLATFORMS
               (setIsAnalyzing False (log (Settled (Inl e)) w1))))"

text \<open>
  \<^verbatim>\<open>handleRegenerateSingle\<close>: \<^verbatim>\<open>currentState.prompt && platformConfig\<close> holds when the
  prompt is a non-empty string and the key is found in the table.
\<close>

definition handleRegenerateSingle ::
  "backend \<Rightarrow> string option \<Rightarrow> PlatformKey \<Rightarrow> world \<Rightarrow> world" where
  "handleRegenerateSingle be selectedImage k w =
     (let currentState = images w k;
          platformConfig = List.find (\<lambda>p. key p = k) PLATFORMS
      in case (prompt currentState, platformConfig) of
           (Some prm, Some cfg) \<Rightarrow>
             if prm = [] then w
             else triggerImageGeneration be k prm (apiAspectRatio cfg)
                    (or_undefined selectedImage) w
         | _ \<Rightarrow> w)"

text \<open>\<^verbatim>\<open>useState\<close> of the component: all four states idle, nothing else set.\<close>

definition initial_world :: world where
  "initial_world =
     \<lparr> images = (\<lambda>k. \<lparr> status = idle, imageUrl = None, prompt = None, errorMsg = None \<rparr>),
       isAnalyzing = False,
       trace = [] \<rparr>"

section \<open>Observing a run\<close>

text \<open>
  The functions of this section do not come from the source. They read the trace and the
  state of a run, so that the properties of the pipeline can be stated.
\<close>

text \<open>The timer waits of a trace, in order.\<close>

fun waits :: "event list \<Rightarrow> int list" where
  "waits [] = []"
| "waits (Wait ms # es) = ms # waits es"
| "waits (e # es) = waits es"

text \<open>What a handler added to the trace of the world it started in.\<close>

definition new_events :: "world \<Rightarrow> world \<Rightarrow> event list" where
  "new_events w w' = drop (length (trace w)) (trace w')"

text \<open>
  The events of the service layer (\<^verbatim>\<open>geminiService.ts\<close>): requests, responses and the
  backoff waits. \<open>only_request rq\<close> narrows them to the ones whose requests are all \<open>rq\<close>.
\<close>

fun service_event :: "event \<Rightarrow> bool" where
  "service_event (Request rq) = True"
| "service_event (Response r) = True"
| "service_event (Wait ms) = True"
| "service_event e = False"

fun only_request :: "request \<Rightarrow> event \<Rightarrow> bool" where
  "only_request rq (Request rq') = (rq' = rq)"
| "only_request rq (Response r) = True"
| "only_request rq (Wait ms) = True"
| "only_request rq e = False"

text \<open>
  \<open>step_by P w w'\<close>: going from \<open>w\<close> to \<open>w'\<close> left the component state alone and appended
  only events that satisfy \<open>P\<close>.
\<close>

definition step_by :: "(event \<Rightarrow> bool) \<Rightarrow> world \<Rightarrow> world \<Rightarrow> bool" where
  "step_by P w w' =
     (images w' = images w \<and> isAnalyzing w' = isAnalyzing w \<and>
      take (length (trace w)) (trace w') = trace w \<and>
      list_all P (new_events w w'))"

abbreviation service_step :: "world \<Rightarrow> world \<Rightarrow> bool" where
  "service_step \<equiv> step_by service_event"

text \<open>The request each of the two service functions sends on every attempt.\<close>

definition image_request :: "string \<Rightarrow> AspectRatio \<Rightarrow> string option \<Rightarrow> request" where
  "image_request prm ar ref =
     \<lparr> model = ''gemini-2.5-flash-image'', parts = request_parts prm ref,
       config = ImageConfig ar \<rparr>"

definition prompt_request :: "string \<Rightarrow> string option \<Rightarrow> request" where
  "prompt_request ctx img =
     \<lparr> model = ''gemini-3-flash-preview'', parts = request_parts ctx img,
       config = PromptConfig \<rparr>"

text \<open>
  The shape of the trace of one \<^verbatim>\<open>triggerImageGeneration\<close>, for the service events \<open>es\<close>
  and the result \<open>r\<close> of its \<^verbatim>\<open>generateImage\<close> call, and the state it leaves for its
  platform.
\<close>

definition render_events ::
  "PlatformKey \<Rightarrow> string \<Rightarrow> AspectRatio \<Rightarrow> string option \<Rightarrow> event list \<Rightarrow> thrown + string
     \<Rightarrow> event list" where
  "render_events k prm ar ref es r =
     [SetImages k (loading_state prm), Invoke (GenerateImage prm ar ref)] @ es @
     [Settled (map_sum id Image r), SetImages k (settled_state r)]"

definition rendered :: "string \<Rightarrow> thrown + string \<Rightarrow> ImageState \<Rightarrow> ImageState" where
  "rendered prm r s = spread (spread s (loading_state prm)) (settled_state r)"

text \<open>
  The fixed stretches of the trace of \<^verbatim>\<open>handleGenerateAll\<close>: up to the call of
  \<^verbatim>\<open>generateVisualPrompts\<close>, after its success, and after its failure.
\<close>

definition start_events :: "string \<Rightarrow> string option \<Rightarrow> event list" where
  "start_events userInput selectedImage =
     [SetIsAnalyzing True,
      SetImages linkedin reset_state, SetImages twitter reset_state,
      SetImages instagram reset_state, SetImages blog reset_state,
      Invoke (GenerateVisualPrompts userInput (or_undefined selectedImage))]"

definition plan_events :: "VisualPrompts \<Rightarrow> event list" where
  "plan_events vp =
     [Settled (Inr (Prompts vp)), SetIsAnalyzing False,
      SetImages linkedin (loading_state (platforms vp linkedin)),
      SetImages twitter (loading_state (platforms vp twitter)),
      SetImages instagram (loading_state (platforms vp instagram)),
      SetImages blog (loading_state (platforms vp blog))]"

definition failure_events :: "thrown \<Rightarrow> event list" where
  "failure_events e =
     [Settled (Inl e), SetIsAnalyzing False,
      SetImages linkedin (error_state ''Failed to analyze context.''),
      SetImages twitter (error_state ''Failed to analyze context.''),
      SetImages instagram (error_state ''Failed to analyze context.''),
      SetImages blog (error_state ''Failed to analyze context.'')]"

text \<open>
  The whole of what a run of \<^verbatim>\<open>handleGenerateAll\<close> adds to the trace when the
  derivation succeeds, for the service events and the results of its five calls.
\<close>

definition success_events ::
  "string \<Rightarrow> string option \<Rightarrow> VisualPrompts \<Rightarrow> event list \<Rightarrow>
   event list \<Rightarrow> thrown + string \<Rightarrow> event list \<Rightarrow> thrown + string \<Rightarrow>
   event list \<Rightarrow> thrown + string \<Rightarrow> event list \<Rightarrow> thrown + string \<Rightarrow> event list" where
  "success_events userInput selectedImage vp es es1 r1 es2 r2 es3 r3 es4 r4 =
     start_events userInput selectedImage @
     Request (prompt_request userInput (or_undefined selectedImage)) # es @
     plan_events vp @
     render_events linkedin (platforms vp linkedin) ratio_16_9 (or_undefined selectedImage) es1 r1 @
     [Wait 1500] @
     render_events twitter (platforms vp twitter) ratio_16_9 (or_undefined selectedImage) es2 r2 @
     [Wait 1500] @
     render_events instagram (platforms vp instagram) ratio_1_1 (or_undefined selectedImage) es3 r3
         @
     [Wait 1500] @
     render_events blog (platforms vp blog) ratio_16_9 (or_undefined selectedImage) es4 r4 @
     [Wait 1500]"

text \<open>
  The trace as the component sees it: what happens between the call of a service function
  and the settling of its promise (requests, responses, backoff waits) is left out. The
  flag says whether such a call is pending.
\<close>

fun component_view :: "bool \<Rightarrow> event list \<Rightarrow> event list" where
  "component_view inside [] = []"
| "component_view inside (Invoke c # es) = Invoke c # component_view True es"
| "component_view inside (Settled r # es) = Settled r # component_view False es"
| "component_view inside (e # es) =
     (if inside then component_view inside es else e # component_view inside es)"

text \<open>
  One turn of the loop of \<^verbatim>\<open>handleGenerateAll\<close> in the component's view, for a row of
  the platform table and the result \<open>r\<close> of the render: the render call, its settling, the
  state written from it, and the pacing wait.
\<close>

definition paced_render ::
  "string option \<Rightarrow> VisualPrompts \<Rightarrow> PlatformConfig \<Rightarrow> thrown + string \<Rightarrow> event list" where
  "paced_render ref vp platform r =
     [SetImages (key platform) (loading_state (platforms vp (key platform))),
      Invoke (GenerateImage (platforms vp (key platform)) (apiAspectRatio platform) ref),
      Settled (map_sum id Image r),
      SetImages (key platform) (settled_state r),
      Wait 1500]"

fun is_render_call :: "event \<Rightarrow> bool" where
  "is_render_call (Invoke (GenerateImage prm ar ref)) = True"
| "is_render_call e = False"

text \<open>
  The state of the four platforms after a stretch of trace: the updates applied in order.
  \<open>before_first_request\<close> is the stretch before anything is sent to the backend.
\<close>

fun apply_event :: "event \<Rightarrow> (PlatformKey \<Rightarrow> ImageState) \<Rightarrow> (PlatformKey \<Rightarrow> ImageState)" where
  "apply_event (SetImages k p) im = im(k := spread (im k) p)"
| "apply_event e im = im"

definition replay :: "event list \<Rightarrow> (PlatformKey \<Rightarrow> ImageState) \<Rightarrow> (PlatformKey \<Rightarrow> ImageState)" where
  "replay es im = fold apply_event es im"

definition before_first_request :: "event list \<Rightarrow> event list" where
  "before_first_request es = takeWhile (\<lambda>e. \<not> is_Request e) es"

text \<open>
  The worlds the application can be in between two handlers: it starts in
  \<open>initial_world\<close>, and the user may run either handler any number of times, with any
  input, while the backend answers in any way.
\<close>

inductive reachable :: "world \<Rightarrow> bool" where
  start: "reachable initial_world"
| generateAll:
    "reachable w \<Longrightarrow> reachable (handleGenerateAll be JSON_parse userInput selectedImage w)"
| regenerate:
    "reachable w \<Longrightarrow> reachable (handleRegenerateSingle be selectedImage k w)"

text \<open>
  What every update written by the two handlers has in common: it sets the status; it sets
  an image exactly when the status is \<open>success\<close>; it sets a message when the status is
  \<open>error\<close>.
\<close>

definition sound_update :: "PartialImageState \<Rightarrow> bool" where
  "sound_update p =
     (case new_status p of
        None \<Rightarrow> False
      | Some s \<Rightarrow>
          (if s = success then (case new_imageUrl p of Some (Some url) \<Rightarrow> True | _ \<Rightarrow> False)
           else new_imageUrl p = None) \<and>
          (if s = error then (case new_errorMsg p of Some (Some msg) \<Rightarrow> True | _ \<Rightarrow> False)
           else True))"

fun sound_event :: "event \<Rightarrow> bool" where
  "sound_event (SetImages k p) = sound_update p"
| "sound_event e = True"

text \<open>The image of the last successful render of a platform in a stretch of trace.\<close>

fun note_render :: "PlatformKey \<Rightarrow> event \<Rightarrow> string option \<Rightarrow> string option" where
  "note_render k (SetImages k' p) cur =
     (if k' = k \<and> new_status p = Some success
      then (case new_imageUrl p of Some v \<Rightarrow> v | None \<Rightarrow> cur)
      else cur)"
| "note_render k e cur = cur"

definition last_render :: "PlatformKey \<Rightarrow> event list \<Rightarrow> string option" where
  "last_render k es = fold (note_render k) es None"

section \<open>Sample backends and runs\<close>

text \<open>
  Concrete backends for the examples: one that answers every request well, one that answers
  with nothing, one that derives prompts but returns no image, and one that is over quota
  on its first two requests.
\<close>

definition demo_prompts :: VisualPrompts where
  "demo_prompts =
     \<lparr> visualStyleSeed = ''soft pastel light'',
       platforms = (\<lambda>k. case k of linkedin \<Rightarrow> ''subject in the right third''
                             | twitter \<Rightarrow> ''focus centered or right''
                             | instagram \<Rightarrow> ''subject centered''
                             | blog \<Rightarrow> ''bottom fifth clear'') \<rparr>"

definition demo_parse :: json_parse where
  "demo_parse t = (if t = ''{}'' then Inr demo_prompts
                   else Inl (Error ''Unexpected end of JSON input''))"

definition demo_backend :: backend where
  "demo_backend n rq =
     (case config rq of
        PromptConfig \<Rightarrow> Inr \<lparr> resp_text = Some ''{}'', resp_parts = None \<rparr>
      | ImageConfig ar \<Rightarrow>
          Inr \<lparr> resp_text = None,
                resp_parts = Some [InlineDataPart (Some ''image/png'') (Some ''AAAA'')] \<rparr>)"

definition empty_backend :: backend where
  "empty_backend n rq = Inr \<lparr> resp_text = None, resp_parts = None \<rparr>"

definition no_image_backend :: backend where
  "no_image_backend n rq =
     (case config rq of
        PromptConfig \<Rightarrow> Inr \<lparr> resp_text = Some ''{}'', resp_parts = None \<rparr>
      | ImageConfig ar \<Rightarrow> Inr \<lparr> resp_text = None, resp_parts = None \<rparr>)"

definition quota_twice :: backend where
  "quota_twice n rq =
     (if n < 2 then Inl (ErrorObject (JNum 429) JUndefined (Some ''Too Many Requests'') None)
      else Inr \<lparr> resp_text = None,
                 resp_parts = Some [InlineDataPart (Some ''image/png'') (Some ''AAAA'')] \<rparr>)"

text \<open>
  Two runs of the whole pipeline from the initial state: one where every render succeeds,
  one where every render fails.
\<close>

definition ok_run :: world where
  "ok_run = handleGenerateAll demo_backend demo_parse ''eco packaging'' None initial_world"

definition failed_run :: world where
  "failed_run = handleGenerateAll no_image_backend demo_parse ''eco packaging'' None initial_world"

section \<open>Lemmas\<close>

subsection \<open>Reading the world\<close>

lemma waits_append: "waits (xs @ ys) = waits xs @ waits ys"
  by (induction xs rule: waits.induct) auto

lemma trace_log: "trace (log e w) = trace w @ [e]" by (simp add: log_def)

lemma images_log: "images (log e w) = images w" by (simp add: log_def)

lemma isAnalyzing_log: "isAnalyzing (log e w) = isAnalyzing w" by (simp add: log_def)

lemma trace_wait: "trace (wait ms w) = trace w @ [Wait ms]" by (simp add: wait_def log_def)

text \<open>
  With no attempt allowed the loop body never runs: the operation is not called, and what
  is thrown is the initial \<^verbatim>\<open>lastError\<close>, that is \<^verbatim>\<open>undefined\<close>.
\<close>

lemma withRetry_no_attempts: "retries \<le> 0 \<Longrightarrow> withRetry operation retries initialDelay w =
    (Inl Undefined, w)"
  unfolding withRetry_def by (subst withRetry_loop.simps) simp

subsection \<open>What the service layer does to the world\<close>

lemma step_byI:
  "images w' = images w \<Longrightarrow> isAnalyzing w' = isAnalyzing w \<Longrightarrow> trace w' = trace w @ es \<Longrightarrow>
   list_all P es \<Longrightarrow> step_by P w w'"
  by (simp add: step_by_def new_events_def)

lemma step_byE:
  assumes "step_by P w w'"
  obtains es where "images w' = images w" "isAnalyzing w' = isAnalyzing w"
    "trace w' = trace w @ es" "list_all P es"
proof -
  from assms have "trace w' = trace w @ new_events w w'"
    unfolding step_by_def new_events_def by (metis append_take_drop_id)
  with assms that show thesis unfolding step_by_def by blast
qed

lemmas service_stepE = step_byE [where P = service_event]

lemma step_by_refl: "step_by P w w"
  by (rule step_byI [where es = "[]"]) simp_all

lemma step_by_trans:
  assumes "step_by P w w'" "step_by P w' w''" shows "step_by P w w''"
proof -
  from assms(1) obtain es where a: "images w' = images w" "isAnalyzing w' = isAnalyzing w"
    "trace w' = trace w @ es" "list_all P es" by (rule step_byE)
  from assms(2) obtain es' where b: "images w'' = images w'" "isAnalyzing w'' = isAnalyzing w'"
    "trace w'' = trace w' @ es'" "list_all P es'" by (rule step_byE)
  show ?thesis
    by (rule step_byI [where es = "es @ es'"]) (use a b in simp_all)
qed

lemma step_by_mono:
  assumes "step_by P w w'" and "\<And>e. P e \<Longrightarrow> Q e" shows "step_by Q w w'"
proof -
  from assms(1) obtain es where a: "images w' = images w" "isAnalyzing w' = isAnalyzing w"
    "trace w' = trace w @ es" "list_all P es" by (rule step_byE)
  from a(4) assms(2) have "list_all Q es" by (simp add: list_all_iff)
  with a show ?thesis by (intro step_byI [where es = es]) simp_all
qed

lemma only_request_service: "only_request rq e \<Longrightarrow> service_event e"
  by (cases e) simp_all

lemma step_by_wait: "P (Wait ms) \<Longrightarrow> step_by P w (wait ms w)"
  by (rule step_byI [where es = "[Wait ms]"]) (simp_all add: wait_def log_def)

lemma trace_generateContent:
  "trace (snd (generateContent be rq w)) =
     trace w @ [Request rq, Response (fst (generateContent be rq w))]"
  by (simp add: generateContent_def log_def Let_def)

lemma step_by_generateContent:
  "step_by (only_request rq) w (snd (generateContent be rq w))"
  by (rule step_byI [where es = "[Request rq, Response (fst (generateContent be rq w))]"])
     (simp_all add: generateContent_def log_def Let_def)

lemma snd_generateImage_attempt:
  "snd (generateImage_attempt be prm ar ref w) =
   snd (generateContent be \<lparr> model = ''gemini-2.5-flash-image'',
          parts = request_parts prm ref, config = ImageConfig ar \<rparr> w)"
  by (simp add: generateImage_attempt_def split: prod.splits sum.splits option.splits)

lemma snd_generateVisualPrompts_attempt:
  "snd (generateVisualPrompts_attempt be J ctx img w) =
   snd (generateContent be \<lparr> model = ''gemini-3-flash-preview'',
          parts = request_parts ctx img, config = PromptConfig \<rparr> w)"
  by (simp add: generateVisualPrompts_attempt_def split: prod.splits sum.splits option.splits)

lemma step_by_withRetry_loop:
  assumes "\<And>w. step_by P w (snd (operation w))" and "\<And>ms. P (Wait ms)"
  shows "step_by P w (snd (withRetry_loop operation retries initialDelay i lastError w))"
  using assms
proof (induction operation retries initialDelay i lastError w rule: withRetry_loop.induct)
  case (1 operation retries initialDelay i lastError w)
  note op = "1.prems"(1) and pw = "1.prems"(2)
  show ?case
  proof (cases "operation w")
    case (Pair r w1)
    have s1: "step_by P w w1" using op [of w] Pair by simp
    show ?thesis
    proof (cases "int i < retries")
      case False
      then show ?thesis by (subst withRetry_loop.simps) (simp add: step_by_refl)
    next
      case True
      show ?thesis
      proof (cases r)
        case (Inr v)
        with True Pair s1 show ?thesis by (subst withRetry_loop.simps) simp
      next
        case (Inl e)
        show ?thesis
        proof (cases "isQuotaError e \<and> int i < retries - 1")
          case False
          with True Pair Inl s1 show ?thesis by (subst withRetry_loop.simps) auto
        next
          case again: True
          have "step_by P (wait (initialDelay * 2 ^ i) w1)
                  (snd (withRetry_loop operation retries initialDelay (i + 1) e
                     (wait (initialDelay * 2 ^ i) w1)))"
            using "1.IH" [OF True Pair [symmetric] _ again] Inl op pw by simp
          then have "step_by P w (snd (withRetry_loop operation retries initialDelay (i + 1) e
                     (wait (initialDelay * 2 ^ i) w1)))"
            using s1 step_by_wait [where P = P, OF pw] step_by_trans by blast
          with True Pair Inl again show ?thesis by (subst withRetry_loop.simps) simp
        qed
      qed
    qed
  qed
qed

text \<open>
  With at least one attempt allowed, the run starts with the first call of the operation:
  what follows only adds to the trace that call left.
\<close>

lemma step_by_withRetry_after_first:
  assumes "\<And>w. step_by P w (snd (operation w))" and "\<And>ms. P (Wait ms)" and "0 < retries"
  shows "step_by P (snd (operation w)) (snd (withRetry operation retries initialDelay w))"
proof (cases "operation w")
  case (Pair r w1)
  show ?thesis
  proof (cases r)
    case (Inr v)
    with Pair assms(3) show ?thesis
      unfolding withRetry_def by (subst withRetry_loop.simps) (simp add: step_by_refl)
  next
    case (Inl e)
    show ?thesis
    proof (cases "isQuotaError e \<and> 0 < retries - 1")
      case False
      with Pair Inl assms(3) show ?thesis
        unfolding withRetry_def by (subst withRetry_loop.simps) (auto simp: step_by_refl)
    next
      case True
      have "step_by P (wait (initialDelay * 2 ^ 0) w1)
              (snd (withRetry_loop operation retries initialDelay (0 + 1) e
                 (wait (initialDelay * 2 ^ 0) w1)))"
        by (rule step_by_withRetry_loop) (rule assms)+
      then have "step_by P w1 (snd (withRetry_loop operation retries initialDelay (0 + 1) e
                 (wait (initialDelay * 2 ^ 0) w1)))"
        using step_by_wait [where P = P, OF assms(2)] step_by_trans by blast
      with Pair Inl True assms(3) show ?thesis
        unfolding withRetry_def by (subst withRetry_loop.simps) simp
    qed
  qed
qed

lemma step_by_image_attempt:
  "step_by (only_request (image_request prm ar ref)) w (snd
      (generateImage_attempt be prm ar ref w))"
  by (simp add: snd_generateImage_attempt step_by_generateContent image_request_def)

lemma step_by_prompts_attempt:
  "step_by (only_request (prompt_request ctx img)) w
     (snd (generateVisualPrompts_attempt be J ctx img w))"
  by (simp add: snd_generateVisualPrompts_attempt step_by_generateContent prompt_request_def)

lemma step_by_generateImage:
  "step_by (only_request (image_request prm ar ref)) w (snd (generateImage be prm ar ref w))"
  unfolding generateImage_def withRetry_def
  by (rule step_by_withRetry_loop) (simp_all add: step_by_image_attempt)

lemma step_by_generateVisualPrompts:
  "step_by (only_request (prompt_request ctx img)) w
     (snd (generateVisualPrompts be J ctx img w))"
  unfolding generateVisualPrompts_def withRetry_def
  by (rule step_by_withRetry_loop) (simp_all add: step_by_prompts_attempt)

lemma service_step_generateImage:
  "service_step w (snd (generateImage be prm ar ref w))"
  by (rule step_by_mono [OF step_by_generateImage]) (rule only_request_service)

lemma service_step_generateVisualPrompts:
  "service_step w (snd (generateVisualPrompts be J ctx img w))"
  by (rule step_by_mono [OF step_by_generateVisualPrompts]) (rule only_request_service)

text \<open>The first thing either service function does is send its request.\<close>

lemma generateImage_first_request:
  "\<exists>es. list_all (only_request (image_request prm ar ref)) es \<and>
     trace (snd (generateImage be prm ar ref w)) = trace w @ Request (image_request prm ar ref)
         # es"
proof -
  let ?op = "generateImage_attempt be prm ar ref"
  have "step_by (only_request (image_request prm ar ref)) (snd (?op w))
          (snd (generateImage be prm ar ref w))"
    unfolding generateImage_def
    by (rule step_by_withRetry_after_first) (simp_all add: step_by_image_attempt)
  then obtain es where e: "trace (snd (generateImage be prm ar ref w)) = trace (snd (?op w)) @ es"
    "list_all (only_request (image_request prm ar ref)) es" by (rule step_byE)
  have "trace (snd (?op w)) = trace w @ [Request (image_request prm ar ref),
          Response (fst (generateContent be (image_request prm ar ref) w))]"
    by (simp add: snd_generateImage_attempt trace_generateContent image_request_def)
  with e show ?thesis by simp
qed

lemma generateVisualPrompts_first_request:
  "\<exists>es. list_all (only_request (prompt_request ctx img)) es \<and>
     trace (snd (generateVisualPrompts be J ctx img w)) =
       trace w @ Request (prompt_request ctx img) # es"
proof -
  let ?op = "generateVisualPrompts_attempt be J ctx img"
  have "step_by (only_request (prompt_request ctx img)) (snd (?op w))
          (snd (generateVisualPrompts be J ctx img w))"
    unfolding generateVisualPrompts_def
    by (rule step_by_withRetry_after_first) (simp_all add: step_by_prompts_attempt)
  then obtain es where e:
    "trace (snd (generateVisualPrompts be J ctx img w)) = trace (snd (?op w)) @ es"
    "list_all (only_request (prompt_request ctx img)) es" by (rule step_byE)
  have "trace (snd (?op w)) = trace w @ [Request (prompt_request ctx img),
          Response (fst (generateContent be (prompt_request ctx img) w))]"
    by (simp add: snd_generateVisualPrompts_attempt trace_generateContent prompt_request_def)
  with e show ?thesis by simp
qed

subsection \<open>One call of triggerImageGeneration\<close>

lemma trace_updateImageState: "trace (updateImageState k p w) = trace w @ [SetImages k p]"
  by (simp add: updateImageState_def log_def)

lemma images_updateImageState:
  "images (updateImageState k p w) = (images w)(k := spread (images w k) p)"
  by (simp add: updateImageState_def log_def)

lemma isAnalyzing_updateImageState: "isAnalyzing (updateImageState k p w) = isAnalyzing w"
  by (simp add: updateImageState_def log_def)

lemma trace_setIsAnalyzing: "trace (setIsAnalyzing b w) = trace w @ [SetIsAnalyzing b]"
  by (simp add: setIsAnalyzing_def log_def)

lemma images_setIsAnalyzing: "images (setIsAnalyzing b w) = images w"
  by (simp add: setIsAnalyzing_def log_def)

lemma isAnalyzing_setIsAnalyzing: "isAnalyzing (setIsAnalyzing b w) = b"
  by (simp add: setIsAnalyzing_def log_def)

lemma images_wait: "images (wait ms w) = images w" by (simp add: wait_def log_def)

lemma isAnalyzing_wait: "isAnalyzing (wait ms w) = isAnalyzing w" by (simp add: wait_def log_def)

lemmas world_simps = trace_log images_log isAnalyzing_log trace_wait images_wait isAnalyzing_wait
  trace_updateImageState images_updateImageState isAnalyzing_updateImageState
  trace_setIsAnalyzing images_setIsAnalyzing isAnalyzing_setIsAnalyzing

text \<open>A successful render returns a data URL, which is never empty.\<close>

lemma image_of_part_nonempty: "image_of_part p = Some url \<Longrightarrow> url \<noteq> []"
  by (cases p rule: image_of_part.cases) (auto split: if_splits)

lemma first_image_nonempty: "first_image ps = Some url \<Longrightarrow> url \<noteq> []"
  by (induction ps) (auto split: option.splits dest: image_of_part_nonempty)

lemma generateImage_attempt_nonempty:
  "fst (generateImage_attempt be prm ar ref w) = Inr url \<Longrightarrow> url \<noteq> []"
  by (auto simp: generateImage_attempt_def split: prod.splits sum.splits option.splits
      dest: first_image_nonempty)

lemma withRetry_loop_Inr:
  assumes "\<And>w v. fst (operation w) = Inr v \<Longrightarrow> P v"
    and "fst (withRetry_loop operation retries initialDelay i lastError w) = Inr v"
  shows "P v"
  using assms
proof (induction operation retries initialDelay i lastError w rule: withRetry_loop.induct)
  case (1 operation retries initialDelay i lastError w)
  note res = "1.prems"(2) and op = "1.prems"(1)
  obtain r w1 where Pair: "operation w = (r, w1)" by (cases "operation w")
  from res have lt: "int i < retries"
    by (subst (asm) withRetry_loop.simps) (simp split: if_splits)
  show ?case
  proof (cases r)
    case (Inr v')
    with lt Pair res have "v' = v" by (subst (asm) withRetry_loop.simps) simp
    with op [of w v'] Pair Inr show ?thesis by simp
  next
    case (Inl e)
    show ?thesis
    proof (cases "isQuotaError e \<and> int i < retries - 1")
      case False
      with lt Pair Inl res show ?thesis by (subst (asm) withRetry_loop.simps) auto
    next
      case again: True
      from lt Pair Inl again res
      have "fst (withRetry_loop operation retries initialDelay (i + 1) e
                   (wait (initialDelay * 2 ^ i) w1)) = Inr v"
        by (subst (asm) withRetry_loop.simps) simp
      from "1.IH" [OF lt Pair [symmetric] _ again _ this] Inl op show ?thesis by simp
    qed
  qed
qed

lemma generateImage_nonempty:
  "fst (generateImage be prm ar ref w) = Inr url \<Longrightarrow> url \<noteq> []"
  unfolding generateImage_def withRetry_def
  by (erule withRetry_loop_Inr [rotated]) (rule generateImage_attempt_nonempty)

lemma triggerImageGeneration_effect:
  "\<exists>es r. list_all service_event es \<and> (\<forall>url. r = Inr url \<longrightarrow> url \<noteq> []) \<and>
     (\<exists>w'. r = fst (generateImage be prm ar ref w')) \<and>
     trace (triggerImageGeneration be k prm ar ref w) = trace w @ render_events k prm ar ref es r \<and>
     images (triggerImageGeneration be k prm ar ref w) = (images w)(k := rendered prm r
         (images w k)) \<and>
     isAnalyzing (triggerImageGeneration be k prm ar ref w) = isAnalyzing w"
proof -
  let ?w2 = "log (Invoke (GenerateImage prm ar ref)) (updateImageState k (loading_state prm) w)"
  obtain r w3 where g: "generateImage be prm ar ref ?w2 = (r, w3)"
    by (cases "generateImage be prm ar ref ?w2")
  have "service_step ?w2 w3" using service_step_generateImage [of ?w2 be prm ar ref] g by simp
  then obtain es where s: "images w3 = images ?w2" "isAnalyzing w3 = isAnalyzing ?w2"
    "trace w3 = trace ?w2 @ es" "list_all service_event es" by (rule service_stepE)
  have ne: "\<forall>url. r = Inr url \<longrightarrow> url \<noteq> []"
    using generateImage_nonempty [of be prm ar ref ?w2] g by simp
  have t: "triggerImageGeneration be k prm ar ref w =
           updateImageState k (settled_state r) (log (Settled (map_sum id Image r)) w3)"
    using g by (simp add: triggerImageGeneration_def Let_def)
  have "trace (triggerImageGeneration be k prm ar ref w) = trace w
      @ render_events k prm ar ref es r"
    by (simp add: t s world_simps render_events_def)
  moreover
  have "images (triggerImageGeneration be k prm ar ref w) = (images w)(k := rendered prm r
      (images w k))"
    by (simp add: t s world_simps rendered_def)
  moreover
  have "isAnalyzing (triggerImageGeneration be k prm ar ref w) = isAnalyzing w"
    by (simp add: t s world_simps)
  moreover have "\<exists>w'. r = fst (generateImage be prm ar ref w')"
    using g by (intro exI [of _ ?w2]) simp
  ultimately show ?thesis using s(4) ne by blast
qed

subsection \<open>The two outcomes of handleGenerateAll\<close>

lemma derivation_call_simps:
  "trace (derivation_call ui img w) = trace w @ start_events ui img"
  "images (derivation_call ui img w) = (\<lambda>k. spread (images w k) reset_state)"
  "isAnalyzing (derivation_call ui img w) = True"
proof -
  show "trace (derivation_call ui img w) = trace w @ start_events ui img"
    by (simp add: derivation_call_def PLATFORMS_def world_simps start_events_def)
  show "images (derivation_call ui img w) = (\<lambda>k. spread (images w k) reset_state)"
  proof
    fix k show "images (derivation_call ui img w) k = spread (images w k) reset_state"
      by (cases k) (simp_all add: derivation_call_def PLATFORMS_def world_simps)
  qed
  show "isAnalyzing (derivation_call ui img w) = True"
    by (simp add: derivation_call_def PLATFORMS_def world_simps)
qed

lemma derivation_effect:
  obtains es where "list_all service_event es"
    "trace (snd (generateVisualPrompts be J ui (or_undefined img) (derivation_call ui img w)))
       = trace w @ start_events ui img @ Request (prompt_request ui (or_undefined img)) # es"
    "images (snd (generateVisualPrompts be J ui (or_undefined img) (derivation_call ui img w)))
       = (\<lambda>k. spread (images w k) reset_state)"
proof -
  let ?w0 = "derivation_call ui img w"
  let ?g = "generateVisualPrompts be J ui (or_undefined img) ?w0"
  have "service_step ?w0 (snd ?g)"
    by (rule service_step_generateVisualPrompts)
  then have i: "images (snd ?g) = images ?w0" by (rule service_stepE)
  obtain es where e: "list_all (only_request (prompt_request ui (or_undefined img))) es"
    "trace (snd ?g) = trace ?w0 @ Request (prompt_request ui (or_undefined img)) # es"
    using generateVisualPrompts_first_request [of ui "or_undefined img" be J ?w0] by blast
  from e(1) have "list_all service_event es"
    by (auto simp: list_all_iff intro: only_request_service)
  then show thesis
    by (rule that [of es]) (simp_all add: i e derivation_call_simps)
qed

lemma handleGenerateAll_failure:
  assumes "\<not> guard_generateAll ui img"
    and "fst (generateVisualPrompts be J ui (or_undefined img) (derivation_call ui img w)) = Inl e"
  obtains es where "list_all service_event es"
    "trace (handleGenerateAll be J ui img w) = trace w @ start_events ui img @ Request
        (prompt_request ui (or_undefined img)) # es @ failure_events e"
    "\<And>k. images (handleGenerateAll be J ui img w) k =
       spread (spread (images w k) reset_state) (error_state ''Failed to analyze context.'')"
proof -
  let ?g = "generateVisualPrompts be J ui (or_undefined img) (derivation_call ui img w)"
  obtain es where s: "list_all service_event es"
    "trace (snd ?g) = trace w @ start_events ui img @ Request (prompt_request ui (or_undefined img))
        # es"
    "images (snd ?g) = (\<lambda>k. spread (images w k) reset_state)"
    by (rule derivation_effect)
  have g: "?g = (Inl e, snd ?g)" using assms(2) by (simp add: prod_eq_iff)
  have h: "handleGenerateAll be J ui img w =
     fold (\<lambda>p. updateImageState (key p) (error_state ''Failed to analyze context.'')) PLATFORMS
       (setIsAnalyzing False (log (Settled (Inl e)) (snd ?g)))"
    using assms by (auto simp: handleGenerateAll_def split: prod.splits)
  show thesis
  proof (rule that [of es])
    show "list_all service_event es" by (rule s)
    show "trace (handleGenerateAll be J ui img w) = trace w @ start_events ui img @ Request
        (prompt_request ui (or_undefined img)) # es @ failure_events e"
      by (simp add: h PLATFORMS_def world_simps s failure_events_def)
    fix k
    show "images (handleGenerateAll be J ui img w) k =
       spread (spread (images w k) reset_state) (error_state ''Failed to analyze context.'')"
      by (cases k) (simp_all add: h PLATFORMS_def world_simps s)
  qed
qed

lemma render_step:
  "\<exists>es r. list_all service_event es \<and> (\<forall>url. r = Inr url \<longrightarrow> url \<noteq> []) \<and>
     (\<exists>w'. r = fst (generateImage be prm ar ref w')) \<and>
     trace (wait 1500 (triggerImageGeneration be k prm ar ref w)) =
       trace w @ render_events k prm ar ref es r @ [Wait 1500] \<and>
     images (wait 1500 (triggerImageGeneration be k prm ar ref w)) =
       (images w)(k := rendered prm r (images w k))"
  using triggerImageGeneration_effect [where be = be and k = k and prm = prm and ar = ar and ref
      = ref and w = w] by (simp add: world_simps) blast

lemma handleGenerateAll_success:
  assumes "\<not> guard_generateAll ui img"
    and "fst (generateVisualPrompts be J ui (or_undefined img) (derivation_call ui img w)) = Inr vp"
  obtains es es1 es2 es3 es4 r1 r2 r3 r4 where
    "list_all service_event es" "list_all service_event es1" "list_all service_event es2"
    "list_all service_event es3" "list_all service_event es4"
    "\<forall>url. r1 = Inr url \<or> r2 = Inr url \<or> r3 = Inr url \<or> r4 = Inr url \<longrightarrow> url \<noteq> []"
    "\<exists>w'. r1 = fst (generateImage be (platforms vp linkedin) ratio_16_9 (or_undefined img) w')"
    "\<exists>w'. r2 = fst (generateImage be (platforms vp twitter) ratio_16_9 (or_undefined img) w')"
    "\<exists>w'. r3 = fst (generateImage be (platforms vp instagram) ratio_1_1 (or_undefined img) w')"
    "\<exists>w'. r4 = fst (generateImage be (platforms vp blog) ratio_16_9 (or_undefined img) w')"
    "trace (handleGenerateAll be J ui img w) =
       trace w @ success_events ui img vp es es1 r1 es2 r2 es3 r3 es4 r4"
    "\<forall>k. images (handleGenerateAll be J ui img w) k =
       rendered (platforms vp k) (case k of linkedin \<Rightarrow> r1 | twitter \<Rightarrow> r2 | instagram \<Rightarrow> r3 | blog \<Rightarrow>
           r4)
         (spread (spread (images w k) reset_state) (loading_state (platforms vp k)))"
proof -
  let ?g = "generateVisualPrompts be J ui (or_undefined img) (derivation_call ui img w)"
  let ?ref = "or_undefined img"
  obtain es where s: "list_all service_event es"
    "trace (snd ?g) = trace w @ start_events ui img @ Request (prompt_request ui (or_undefined img))
        # es"
    "images (snd ?g) = (\<lambda>k. spread (images w k) reset_state)"
    by (rule derivation_effect)
  define w5 where "w5 = fold (\<lambda>p. updateImageState (key p) (loading_state (platforms vp (key p))))
       PLATFORMS (setIsAnalyzing False (log (Settled (Inr (Prompts vp))) (snd ?g)))"
  have g: "?g = (Inr vp, snd ?g)" using assms(2) by (simp add: prod_eq_iff)
  have h: "handleGenerateAll be J ui img w = render_all be vp img w5"
    using assms unfolding w5_def by (auto simp: handleGenerateAll_def split: prod.splits)
  have t5: "trace w5 = trace w @ start_events ui img @ Request (prompt_request ui
      (or_undefined img)) # es @ plan_events vp"
    by (simp add: w5_def PLATFORMS_def world_simps s plan_events_def)
  have i5: "\<And>k. images w5 k = spread (spread (images w k) reset_state) (loading_state
      (platforms vp k))"
    subgoal for k by (cases k) (simp_all add: w5_def PLATFORMS_def world_simps s)
    done
  define w6 where "w6 = wait 1500 (triggerImageGeneration be linkedin
      (platforms vp linkedin) ratio_16_9 ?ref w5)"
  define w7 where "w7 = wait 1500 (triggerImageGeneration be twitter
      (platforms vp twitter) ratio_16_9 ?ref w6)"
  define w8 where "w8 = wait 1500 (triggerImageGeneration be instagram
      (platforms vp instagram) ratio_1_1 ?ref w7)"
  define w9 where "w9 = wait 1500 (triggerImageGeneration be blog
      (platforms vp blog) ratio_16_9 ?ref w8)"
  have r: "render_all be vp img w5 = w9"
    by (simp add: render_all_def PLATFORMS_def w6_def w7_def w8_def w9_def)
  obtain es1 r1 where a1: "list_all service_event es1" "\<And>url. r1 = Inr url \<Longrightarrow> url \<noteq> []"
    "\<exists>w'. r1 = fst (generateImage be (platforms vp linkedin) ratio_16_9 ?ref w')"
    "trace w6 = trace w5 @ render_events linkedin (platforms vp linkedin) ratio_16_9 ?ref es1 r1 @
        [Wait 1500]"
    "images w6 = (images w5)(linkedin := rendered (platforms vp linkedin) r1 (images w5 linkedin))"
    using render_step [where be = be and k = linkedin and prm = "platforms vp linkedin" and ar
        = ratio_16_9 and ref = ?ref and w = w5] unfolding w6_def by blast
  obtain es2 r2 where a2: "list_all service_event es2" "\<And>url. r2 = Inr url \<Longrightarrow> url \<noteq> []"
    "\<exists>w'. r2 = fst (generateImage be (platforms vp twitter) ratio_16_9 ?ref w')"
    "trace w7 = trace w6 @ render_events twitter (platforms vp twitter) ratio_16_9 ?ref es2 r2 @
        [Wait 1500]"
    "images w7 = (images w6)(twitter := rendered (platforms vp twitter) r2 (images w6 twitter))"
    using render_step [where be = be and k = twitter and prm = "platforms vp twitter" and ar
        = ratio_16_9 and ref = ?ref and w = w6] unfolding w7_def by blast
  obtain es3 r3 where a3: "list_all service_event es3" "\<And>url. r3 = Inr url \<Longrightarrow> url \<noteq> []"
    "\<exists>w'. r3 = fst (generateImage be (platforms vp instagram) ratio_1_1 ?ref w')"
    "trace w8 = trace w7 @ render_events instagram (platforms vp instagram) ratio_1_1 ?ref es3 r3 @
        [Wait 1500]"
    "images w8 = (images w7)(instagram := rendered (platforms vp instagram) r3
        (images w7 instagram))"
    using render_step [where be = be and k = instagram and prm = "platforms vp instagram" and ar
        = ratio_1_1 and ref = ?ref and w = w7] unfolding w8_def by blast
  obtain es4 r4 where a4: "list_all service_event es4" "\<And>url. r4 = Inr url \<Longrightarrow> url \<noteq> []"
    "\<exists>w'. r4 = fst (generateImage be (platforms vp blog) ratio_16_9 ?ref w')"
    "trace w9 = trace w8 @ render_events blog (platforms vp blog) ratio_16_9 ?ref es4 r4 @
        [Wait 1500]"
    "images w9 = (images w8)(blog := rendered (platforms vp blog) r4 (images w8 blog))"
    using render_step [where be = be and k = blog and prm = "platforms vp blog" and ar = ratio_16_9
        and ref = ?ref and w = w8] unfolding w9_def by blast
  show thesis
  proof (rule that [of es es1 es2 es3 es4 r1 r2 r3 r4])
    show "list_all service_event es" "list_all service_event es1" "list_all service_event es2"
      "list_all service_event es3" "list_all service_event es4"
      by (rule s a1 a2 a3 a4)+
    show "\<forall>url. r1 = Inr url \<or> r2 = Inr url \<or> r3 = Inr url \<or> r4 = Inr url \<longrightarrow> url \<noteq> []"
      using a1(2) a2(2) a3(2) a4(2) by blast
    show "\<exists>w'. r1 = fst (generateImage be (platforms vp linkedin) ratio_16_9 (or_undefined img) w')"
      by (rule a1)
    show "\<exists>w'. r2 = fst (generateImage be (platforms vp twitter) ratio_16_9 (or_undefined img) w')"
      by (rule a2)
    show "\<exists>w'. r3 = fst (generateImage be (platforms vp instagram) ratio_1_1 (or_undefined img) w')"
      by (rule a3)
    show "\<exists>w'. r4 = fst (generateImage be (platforms vp blog) ratio_16_9 (or_undefined img) w')"
      by (rule a4)
    show "trace (handleGenerateAll be J ui img w) =
       trace w @ success_events ui img vp es es1 r1 es2 r2 es3 r3 es4 r4"
      by (simp add: h r a4(4) a3(4) a2(4) a1(4) t5 success_events_def)
    show "\<forall>k. images (handleGenerateAll be J ui img w) k =
       rendered (platforms vp k) (case k of linkedin \<Rightarrow> r1 | twitter \<Rightarrow> r2 | instagram \<Rightarrow> r3 | blog \<Rightarrow>
           r4)
         (spread (spread (images w k) reset_state) (loading_state (platforms vp k)))"
    proof
      fix k
      show "images (handleGenerateAll be J ui img w) k =
         rendered (platforms vp k) (case k of linkedin \<Rightarrow> r1 | twitter \<Rightarrow> r2 | instagram \<Rightarrow> r3 | blog \<Rightarrow>
             r4)
           (spread (spread (images w k) reset_state) (loading_state (platforms vp k)))"
        by (cases k) (simp_all add: h r a4(5) a3(5) a2(5) a1(5) i5)
    qed
  qed
qed

subsection \<open>The component view of a trace\<close>

lemma component_view_service:
  "list_all service_event es \<Longrightarrow> component_view True (es @ rest) = component_view True rest"
proof (induction es)
  case Nil
  then show ?case by simp
next
  case (Cons e es)
  then show ?case by (cases e) simp_all
qed

lemma new_events_append: "trace w' = trace w @ es \<Longrightarrow> new_events w w' = es"
  by (simp add: new_events_def)

lemma render_calls_service: "list_all service_event es \<Longrightarrow> filter is_render_call es = []"
proof (induction es)
  case Nil
  then show ?case by simp
next
  case (Cons e es)
  then show ?case by (cases e) simp_all
qed

subsection \<open>The reset, the platform table, the request parts\<close>

lemma handleGenerateAll_prefix:
  assumes "\<not> guard_generateAll ui img"
  shows "\<exists>rest. new_events w (handleGenerateAll be J ui img w) =
           start_events ui img @ Request (prompt_request ui (or_undefined img)) # rest"
proof (cases "fst (generateVisualPrompts be J ui (or_undefined img) (derivation_call ui img w))")
  case (Inl e)
  obtain es where "trace (handleGenerateAll be J ui img w) =
      trace w @ start_events ui img @ Request (prompt_request ui (or_undefined img)) # es
          @ failure_events e"
    using handleGenerateAll_failure [OF assms Inl] by metis
  then show ?thesis by (simp add: new_events_def)
next
  case (Inr vp)
  obtain es es1 r1 es2 r2 es3 r3 es4 r4 where "trace (handleGenerateAll be J ui img w) =
      trace w @ success_events ui img vp es es1 r1 es2 r2 es3 r3 es4 r4"
    using handleGenerateAll_success [OF assms Inr] by metis
  then show ?thesis by (simp add: new_events_def success_events_def)
qed

lemma before_first_request_start:
  "before_first_request (start_events ui img @ Request rq # rest) = start_events ui img"
  by (simp add: before_first_request_def start_events_def)

lemma replay_start_events:
  "replay (start_events ui img) im k = spread (im k) reset_state"
  by (cases k) (simp_all add: replay_def start_events_def)

lemma find_platform:
  "List.find (\<lambda>p. key p = k) PLATFORMS =
     Some \<lparr> key = k,
            label = (case k of linkedin \<Rightarrow> ''LinkedIn Cover'' | twitter \<Rightarrow> ''X / Twitter Header''
                     | instagram \<Rightarrow> ''Instagram Post'' | blog \<Rightarrow> ''Blog Header''),
            aspectRatioLabel = (case k of linkedin \<Rightarrow> ''3:1 (Generated as 16:9)''
                     | twitter \<Rightarrow> ''3:1 (Generated as 16:9)''
                     | instagram \<Rightarrow> ''1:1'' | blog \<Rightarrow> ''16:9''),
            apiAspectRatio = (case k of instagram \<Rightarrow> ratio_1_1 | _ \<Rightarrow> ratio_16_9),
            description = (case k of
                       linkedin \<Rightarrow> ''Safe zone: Subject in right third. Bottom-left blocked.''
                     | twitter \<Rightarrow> ''Focus centered/right. Bottom-left overlap.''
                     | instagram \<Rightarrow> ''Centered composition. Square format.''
                     | blog \<Rightarrow> ''Cinematic wide shot. Text-safe bottom area.'') \<rparr>"
  by (cases k) (simp_all add: PLATFORMS_def)

lemma render_calls_render_events:
  "list_all service_event es \<Longrightarrow>
   filter is_render_call (render_events k prm ar ref es r) = [Invoke (GenerateImage prm ar ref)]"
  by (simp add: render_events_def render_calls_service)

lemma updates_render_events:
  "list_all service_event es \<Longrightarrow> SetImages k' p \<in> set (render_events k prm ar ref es r) \<Longrightarrow> k' = k"
  by (auto simp: render_events_def list_all_iff)

lemma request_parts_unparsed:
  "parseBase64 img = None \<Longrightarrow> request_parts txt (Some img) = [TextPart txt]"
  by (simp add: request_parts_def)

lemma request_parts_None: "request_parts txt None = [TextPart txt]"
  by (simp add: request_parts_def)

lemma only_request_parts:
  "list_all (only_request rq) es \<Longrightarrow> Request rq' \<in> set es \<Longrightarrow> rq' = rq"
  by (auto simp: list_all_iff)

subsection \<open>Replaying a trace\<close>

lemma replay_append: "replay (xs @ ys) im = replay ys (replay xs im)"
  by (simp add: replay_def)

lemma replay_Nil: "replay [] im = im"
  by (simp add: replay_def)

lemma replay_Cons: "replay (e # es) im = replay es (apply_event e im)"
  by (simp add: replay_def)

lemma apply_service_event: "service_event e \<Longrightarrow> apply_event e im = im"
  by (cases e) simp_all

lemma replay_service: "list_all service_event es \<Longrightarrow> replay es im = im"
  by (induction es arbitrary: im) (simp_all add: replay_Nil replay_Cons apply_service_event)

lemma sound_service_event: "service_event e \<Longrightarrow> sound_event e"
  by (cases e) simp_all

lemma sound_service: "list_all service_event es \<Longrightarrow> list_all sound_event es"
  by (auto simp: list_all_iff intro: sound_service_event)

lemma sound_updates:
  "sound_update reset_state" "sound_update (loading_state prm)"
  "sound_update (error_state msg)" "sound_update (settled_state r)"
  by (simp_all add: sound_update_def reset_state_def loading_state_def error_state_def
      settled_state_def success_state_def split: sum.splits)

lemma sound_render_events:
  "list_all service_event es \<Longrightarrow> list_all sound_event (render_events k prm ar ref es r)"
  by (simp add: render_events_def sound_updates sound_service)

lemma replay_render_events:
  "list_all service_event es \<Longrightarrow>
   replay (render_events k prm ar ref es r) im = im(k := rendered prm r (im k))"
  by (simp add: render_events_def replay_append replay_Cons replay_Nil replay_service rendered_def)

text \<open>Each handler only adds sound updates, and the state it leaves is the replay of them.\<close>

lemma triggerImageGeneration_sound:
  "\<exists>es. trace (triggerImageGeneration be k prm ar ref w) = trace w @ es \<and>
        list_all sound_event es \<and>
        images (triggerImageGeneration be k prm ar ref w) = replay es (images w)"
proof -
  obtain es r where e: "list_all service_event es"
    "trace (triggerImageGeneration be k prm ar ref w) = trace w @ render_events k prm ar ref es r"
    "images (triggerImageGeneration be k prm ar ref w) = (images w)(k := rendered prm r
        (images w k))"
    using triggerImageGeneration_effect [where be = be and k = k and prm = prm and ar = ar
        and ref = ref and w = w] by blast
  show ?thesis
    by (intro exI [of _ "render_events k prm ar ref es r"])
       (simp add: e sound_render_events replay_render_events)
qed

lemma handleRegenerateSingle_sound:
  "\<exists>es. trace (handleRegenerateSingle be img k w) = trace w @ es \<and>
        list_all sound_event es \<and>
        images (handleRegenerateSingle be img k w) = replay es (images w)"
proof (cases "handleRegenerateSingle be img k w = w")
  case True
  then show ?thesis by (intro exI [of _ "[]"]) (simp add: replay_Nil)
next
  case False
  then obtain prm ar where "handleRegenerateSingle be img k w =
      triggerImageGeneration be k prm ar (or_undefined img) w"
    by (auto simp: handleRegenerateSingle_def Let_def split: option.splits if_splits)
  then show ?thesis using triggerImageGeneration_sound by simp
qed

lemma handleGenerateAll_sound:
  "\<exists>es. trace (handleGenerateAll be J ui img w) = trace w @ es \<and>
        list_all sound_event es \<and>
        images (handleGenerateAll be J ui img w) = replay es (images w)"
proof (cases "guard_generateAll ui img")
  case True
  then have "handleGenerateAll be J ui img w = w" by (simp add: handleGenerateAll_def)
  then show ?thesis by (intro exI [of _ "[]"]) (simp add: replay_Nil)
next
  case False
  show ?thesis
  proof (cases "fst (generateVisualPrompts be J ui (or_undefined img) (derivation_call ui img w))")
    case (Inl e)
    obtain es where e: "list_all service_event es"
      "trace (handleGenerateAll be J ui img w) =
         trace w @ start_events ui img @ Request (prompt_request ui (or_undefined img)) # es @
         failure_events e"
      "\<And>k. images (handleGenerateAll be J ui img w) k =
         spread (spread (images w k) reset_state) (error_state ''Failed to analyze context.'')"
      using handleGenerateAll_failure [OF False Inl] by metis
    let ?es = "start_events ui img @ Request (prompt_request ui (or_undefined img)) # es @
         failure_events e"
    have "list_all sound_event ?es"
      by (simp add: start_events_def failure_events_def sound_updates sound_service e)
    moreover have "images (handleGenerateAll be J ui img w) = replay ?es (images w)"
    proof
      fix k show "images (handleGenerateAll be J ui img w) k = replay ?es (images w) k"
        by (cases k)
           (simp_all add: e start_events_def failure_events_def replay_append replay_Cons
              replay_Nil replay_service)
    qed
    ultimately show ?thesis using e(2) by blast
  next
    case (Inr vp)
    obtain es es1 r1 es2 r2 es3 r3 es4 r4 where
      sv: "list_all service_event es" "list_all service_event es1" "list_all service_event es2"
          "list_all service_event es3" "list_all service_event es4"
      and tr: "trace (handleGenerateAll be J ui img w) =
         trace w @ success_events ui img vp es es1 r1 es2 r2 es3 r3 es4 r4"
      and im: "\<And>k. images (handleGenerateAll be J ui img w) k =
         rendered (platforms vp k)
           (case k of linkedin \<Rightarrow> r1 | twitter \<Rightarrow> r2 | instagram \<Rightarrow> r3 | blog \<Rightarrow> r4)
           (spread (spread (images w k) reset_state) (loading_state (platforms vp k)))"
      using handleGenerateAll_success [OF False Inr] by metis
    let ?es = "success_events ui img vp es es1 r1 es2 r2 es3 r3 es4 r4"
    have "list_all sound_event ?es"
      by (simp add: success_events_def start_events_def plan_events_def sound_updates
          sound_service sv sound_render_events)
    moreover have "images (handleGenerateAll be J ui img w) = replay ?es (images w)"
    proof
      fix k show "images (handleGenerateAll be J ui img w) k = replay ?es (images w) k"
        by (cases k)
           (simp_all add: im sv success_events_def start_events_def plan_events_def
              replay_append replay_Cons replay_Nil replay_service replay_render_events)
    qed
    ultimately show ?thesis using tr by blast
  qed
qed

lemma reachable_sound:
  "reachable w \<Longrightarrow>
   list_all sound_event (trace w) \<and> images w = replay (trace w) (images initial_world)"
proof (induction rule: reachable.induct)
  case start
  show ?case by (simp add: initial_world_def replay_Nil)
next
  case (generateAll w be JSON_parse userInput selectedImage)
  obtain es where "trace (handleGenerateAll be JSON_parse userInput selectedImage w) = trace w @ es"
    "list_all sound_event es"
    "images (handleGenerateAll be JSON_parse userInput selectedImage w) = replay es (images w)"
    using handleGenerateAll_sound by blast
  with generateAll.IH show ?case by (simp add: replay_append)
next
  case (regenerate w be selectedImage k)
  obtain es where "trace (handleRegenerateSingle be selectedImage k w) = trace w @ es"
    "list_all sound_event es"
    "images (handleRegenerateSingle be selectedImage k w) = replay es (images w)"
    using handleRegenerateSingle_sound by blast
  with regenerate.IH show ?case by (simp add: replay_append)
qed

lemma sound_update_step:
  assumes "sound_update p"
    and "(status s = success \<longrightarrow> imageUrl s \<noteq> None) \<and>
         (status s = error \<longrightarrow> errorMsg s \<noteq> None) \<and> imageUrl s = cur"
  shows "(status (spread s p) = success \<longrightarrow> imageUrl (spread s p) \<noteq> None) \<and>
         (status (spread s p) = error \<longrightarrow> errorMsg (spread s p) \<noteq> None) \<and>
         imageUrl (spread s p) = note_render k (SetImages k p) cur"
  using assms
  by (auto simp: sound_update_def spread_def split: option.splits if_splits)

lemma sound_replay_invariant:
  assumes "list_all sound_event es"
  shows "(status (replay es (images initial_world) k) = success \<longrightarrow>
            imageUrl (replay es (images initial_world) k) \<noteq> None) \<and>
         (status (replay es (images initial_world) k) = error \<longrightarrow>
            errorMsg (replay es (images initial_world) k) \<noteq> None) \<and>
         imageUrl (replay es (images initial_world) k) = last_render k es"
  using assms
proof (induction es rule: rev_induct)
  case Nil
  show ?case by (simp add: replay_Nil initial_world_def last_render_def)
next
  case (snoc e es)
  from snoc.prems have s: "list_all sound_event es" and se: "sound_event e" by simp_all
  note ih = snoc.IH [OF s]
  have step: "replay (es @ [e']) (images initial_world) =
              apply_event e' (replay es (images initial_world))" for e'
    by (simp add: replay_append replay_Cons replay_Nil)
  have lr: "last_render k (es @ [e']) = note_render k e' (last_render k es)" for e'
    by (simp add: last_render_def)
  show ?case
  proof (cases "\<exists>p. e = SetImages k p")
    case True
    then obtain p where e: "e = SetImages k p" by blast
    with se have sp: "sound_update p" by simp
    have a: "replay (es @ [e]) (images initial_world) k =
             spread (replay es (images initial_world) k) p"
      by (simp add: step e)
    have b: "last_render k (es @ [e]) = note_render k (SetImages k p) (last_render k es)"
      by (simp only: lr e)
    show ?thesis unfolding a b by (rule sound_update_step [OF sp ih])
  next
    case False
    then have "apply_event e (replay es (images initial_world)) k =
               replay es (images initial_world) k"
      and "note_render k e (last_render k es) = last_render k es"
      by (cases e; simp)+
    then have a: "replay (es @ [e]) (images initial_world) k = replay es (images initial_world) k"
      and b: "last_render k (es @ [e]) = last_render k es"
      by (simp_all add: step lr)
    show ?thesis unfolding a b by (rule ih)
  qed
qed

subsection \<open>The sample backends\<close>

lemma withRetry_fst_success:
  assumes "fst (operation w) = Inr v" and "0 < retries"
  shows "fst (withRetry operation retries initialDelay w) = Inr v"
  using assms unfolding withRetry_def
  by (subst withRetry_loop.simps) (auto split: prod.splits)

lemma withRetry_fst_other_error:
  assumes "fst (operation w) = Inl e" and "\<not> isQuotaError e" and "0 < retries"
  shows "fst (withRetry operation retries initialDelay w) = Inl e"
  using assms unfolding withRetry_def
  by (subst withRetry_loop.simps) (auto split: prod.splits)

lemma Error_not_quota:
  "\<not> str_includes msg ''429'' \<Longrightarrow> \<not> str_includes msg ''quota'' \<Longrightarrow>
   \<not> str_includes msg ''RESOURCE_EXHAUSTED'' \<Longrightarrow> \<not> isQuotaError (Error msg)"
  by (simp add: isQuotaError_def Error_def)

lemma demo_derivation:
  "fst (generateVisualPrompts demo_backend demo_parse ui ref w) = Inr demo_prompts"
  unfolding generateVisualPrompts_def
  by (rule withRetry_fst_success)
     (simp_all add: generateVisualPrompts_attempt_def generateContent_def Let_def
        demo_backend_def demo_parse_def)

lemma no_image_derivation:
  "fst (generateVisualPrompts no_image_backend demo_parse ui ref w) = Inr demo_prompts"
  unfolding generateVisualPrompts_def
  by (rule withRetry_fst_success)
     (simp_all add: generateVisualPrompts_attempt_def generateContent_def Let_def
        no_image_backend_def demo_parse_def)

lemma empty_derivation:
  "fst (generateVisualPrompts empty_backend demo_parse ui ref w)
     = Inl (Error ''No text returned from Gemini'')"
  unfolding generateVisualPrompts_def
  by (rule withRetry_fst_other_error)
     (simp_all add: generateVisualPrompts_attempt_def generateContent_def Let_def
        empty_backend_def Error_not_quota)

lemma demo_render:
  "fst (generateImage demo_backend prm ar ref w) = Inr ''data:image/png;base64,AAAA''"
  unfolding generateImage_def
  by (rule withRetry_fst_success)
     (simp_all add: generateImage_attempt_def generateContent_def Let_def demo_backend_def)

lemma no_image_render:
  "fst (generateImage no_image_backend prm ar ref w) = Inl (Error ''No content parts returned'')"
  unfolding generateImage_def
  by (rule withRetry_fst_other_error)
     (simp_all add: generateImage_attempt_def generateContent_def Let_def no_image_backend_def
        Error_not_quota)

lemma guard_eco: "\<not> guard_generateAll ''eco packaging'' None"
  by (simp add: guard_generateAll_def trim_def white_space_def)

subsection \<open>The sample runs\<close>

lemma handleGenerateAll_images_fixed_result:
  assumes "\<not> guard_generateAll ui img"
    and "fst (generateVisualPrompts be J ui (or_undefined img) (derivation_call ui img w)) = Inr vp"
    and "\<And>prm ar w'. fst (generateImage be prm ar (or_undefined img) w') = r"
  shows "images (handleGenerateAll be J ui img w) k =
           rendered (platforms vp k) r
             (spread (spread (images w k) reset_state) (loading_state (platforms vp k)))"
proof -
  obtain es es1 es2 es3 es4 r1 r2 r3 r4 where
    "list_all service_event es" "list_all service_event es1" "list_all service_event es2"
    "list_all service_event es3" "list_all service_event es4"
    "\<forall>url. r1 = Inr url \<or> r2 = Inr url \<or> r3 = Inr url \<or> r4 = Inr url \<longrightarrow> url \<noteq> []"
    and g: "\<exists>w'. r1 = fst (generateImage be (platforms vp linkedin) ratio_16_9
        (or_undefined img) w')"
       "\<exists>w'. r2 = fst (generateImage be (platforms vp twitter) ratio_16_9 (or_undefined img) w')"
       "\<exists>w'. r3 = fst (generateImage be (platforms vp instagram) ratio_1_1 (or_undefined img) w')"
       "\<exists>w'. r4 = fst (generateImage be (platforms vp blog) ratio_16_9 (or_undefined img) w')"
    and "trace (handleGenerateAll be J ui img w) =
       trace w @ success_events ui img vp es es1 r1 es2 r2 es3 r3 es4 r4"
    and im: "\<forall>k. images (handleGenerateAll be J ui img w) k =
       rendered (platforms vp k)
         (case k of linkedin \<Rightarrow> r1 | twitter \<Rightarrow> r2 | instagram \<Rightarrow> r3 | blog \<Rightarrow> r4)
         (spread (spread (images w k) reset_state) (loading_state (platforms vp k)))"
    by (rule handleGenerateAll_success [OF assms(1,2)])
  from g assms(3) have "r1 = r" "r2 = r" "r3 = r" "r4 = r" by auto
  then show ?thesis by (cases k) (simp_all add: im)
qed

lemma triggerImageGeneration_images_fixed_result:
  assumes "\<And>w'. fst (generateImage be prm ar ref w') = r"
  shows "images (triggerImageGeneration be k prm ar ref w) k = rendered prm r (images w k)"
proof -
  obtain r' where "\<exists>w'. r' = fst (generateImage be prm ar ref w')"
    "images (triggerImageGeneration be k prm ar ref w) = (images w)(k := rendered prm r'
        (images w k))"
    using triggerImageGeneration_effect [where be = be and k = k and prm = prm and ar = ar
        and ref = ref and w = w] by blast
  with assms show ?thesis by auto
qed

text \<open>
  The full pipeline never leaves a message beside a success: its reset writes
  \<^verbatim>\<open>errorMsg: undefined\<close> before any render, and a render that succeeds does not write
  the field again.
\<close>

lemma handleGenerateAll_success_has_no_error:
  assumes "\<not> guard_generateAll ui img"
    and "status (images (handleGenerateAll be J ui img w) k) = success"
  shows "errorMsg (images (handleGenerateAll be J ui img w) k) = None"
proof (cases "fst (generateVisualPrompts be J ui (or_undefined img) (derivation_call ui img w))")
  case (Inl e)
  obtain es where "\<And>k. images (handleGenerateAll be J ui img w) k =
       spread (spread (images w k) reset_state) (error_state ''Failed to analyze context.'')"
    using handleGenerateAll_failure [OF assms(1) Inl] by metis
  then have "status (images (handleGenerateAll be J ui img w) k) = error"
    by (simp add: spread_def error_state_def)
  with assms(2) show ?thesis by simp
next
  case (Inr vp)
  obtain r1 r2 r3 r4 where im: "\<And>k. images (handleGenerateAll be J ui img w) k =
       rendered (platforms vp k)
         (case k of linkedin \<Rightarrow> r1 | twitter \<Rightarrow> r2 | instagram \<Rightarrow> r3 | blog \<Rightarrow> r4)
         (spread (spread (images w k) reset_state) (loading_state (platforms vp k)))"
    using handleGenerateAll_success [OF assms(1) Inr] by metis
  have no_error: "errorMsg (rendered prm r (spread (spread s reset_state) (loading_state prm)))
      = None"
    if "status (rendered prm r (spread (spread s reset_state) (loading_state prm))) = success"
    for prm r s
    using that
    by (cases r) (simp_all add: rendered_def spread_def settled_state_def success_state_def
        error_state_def loading_state_def reset_state_def)
  from assms(2) show ?thesis unfolding im by (rule no_error)
qed

lemma ok_run_images:
  "images ok_run k =
     \<lparr> status = success, imageUrl = Some ''data:image/png;base64,AAAA'',
       prompt = Some (platforms demo_prompts k), errorMsg = None \<rparr>"
  unfolding ok_run_def
  by (subst handleGenerateAll_images_fixed_result [OF guard_eco demo_derivation demo_render])
     (simp add: rendered_def spread_def reset_state_def loading_state_def settled_state_def
        success_state_def initial_world_def)

lemma failed_run_images:
  "images failed_run k =
     \<lparr> status = error, imageUrl = None,
       prompt = Some (platforms demo_prompts k), errorMsg = Some ''Generation failed.'' \<rparr>"
  unfolding failed_run_def
  by (subst handleGenerateAll_images_fixed_result
      [OF guard_eco no_image_derivation no_image_render])
     (simp add: rendered_def spread_def reset_state_def loading_state_def settled_state_def
        error_state_def initial_world_def)

lemma regenerate_after_failure:
  "handleRegenerateSingle demo_backend None linkedin failed_run =
     triggerImageGeneration demo_backend linkedin ''subject in the right third'' ratio_16_9 None
       failed_run"
  by (simp add: handleRegenerateSingle_def Let_def failed_run_images find_platform demo_prompts_def
      or_undefined_def)

lemma stale_error_after_regenerate:
  "images (handleRegenerateSingle demo_backend None linkedin failed_run) linkedin =
     \<lparr> status = success, imageUrl = Some ''data:image/png;base64,AAAA'',
       prompt = Some ''subject in the right third'', errorMsg = Some ''Generation failed.'' \<rparr>"
  unfolding regenerate_after_failure
  by (subst triggerImageGeneration_images_fixed_result [OF demo_render])
     (simp add: failed_run_images rendered_def spread_def loading_state_def settled_state_def
        success_state_def demo_prompts_def)

lemma reachable_failed_run: "reachable failed_run"
  unfolding failed_run_def by (intro reachable.intros)

lemma reachable_ok_run: "reachable ok_run"
  unfolding ok_run_def by (intro reachable.intros)

subsection \<open>parseBase64 and the regular expression\<close>

lemma find_Some_member: "List.find P xs = Some x \<Longrightarrow> x \<in> set xs \<and> P x"
  by (induction xs) (auto split: if_splits)

text \<open>
  \<open>parseBase64\<close> matches exactly the strings the regular expression describes:
  \<^verbatim>\<open>data:\<close>, a non-empty mime type, \<^verbatim>\<open>;base64,\<close>, non-empty data, no line terminator.
\<close>

lemma parseBase64_Some_iff:
  "(\<exists>r. parseBase64 s = Some r) \<longleftrightarrow>
   (\<exists>mimeType dat. s = ''data:'' @ mimeType @ '';base64,'' @ dat \<and> mimeType \<noteq> [] \<and> dat \<noteq> [] \<and>
      \<not> list_ex line_terminator mimeType \<and> \<not> list_ex line_terminator dat)"
proof
  assume "\<exists>r. parseBase64 s = Some r"
  then obtain r where r: "parseBase64 s = Some r" ..
  define rest where "rest = drop 5 s"
  from r have pre: "take 5 s = ''data:''" and nl: "\<not> list_ex line_terminator rest"
    by (auto simp: parseBase64_def Let_def rest_def split: if_splits)
  from r pre nl obtain i where
    f: "List.find (\<lambda>i. take 8 (drop i rest) = '';base64,'') (rev [1 ..< length rest - 8]) = Some i"
    by (auto simp: parseBase64_def Let_def rest_def split: option.splits)
  from find_Some_member [OF f]
  have i: "1 \<le> i" "i < length rest - 8" "take 8 (drop i rest) = '';base64,''"
    by simp_all
  have "drop i rest = take 8 (drop i rest) @ drop 8 (drop i rest)"
    by (simp only: append_take_drop_id)
  then have "drop i rest = '';base64,'' @ drop (i + 8) rest"
    by (simp only: i(3) drop_drop add.commute)
  moreover have "rest = take i rest @ drop i rest"
    by (simp only: append_take_drop_id)
  ultimately have split: "rest = take i rest @ '';base64,'' @ drop (i + 8) rest"
    by simp
  have "s = take 5 s @ rest" by (simp add: rest_def)
  then have s: "s = ''data:'' @ take i rest @ '';base64,'' @ drop (i + 8) rest"
    using pre split by metis
  have m: "take i rest \<noteq> []" using i by auto
  have d: "drop (i + 8) rest \<noteq> []" using i by auto
  have "\<not> list_ex line_terminator (take i rest)" "\<not> list_ex line_terminator (drop (i + 8) rest)"
    using nl by (auto simp: list_ex_iff dest: in_set_takeD in_set_dropD)
  with s m d show "\<exists>mimeType dat. s = ''data:'' @ mimeType @ '';base64,'' @ dat \<and> mimeType \<noteq> [] \<and>
      dat \<noteq> [] \<and> \<not> list_ex line_terminator mimeType \<and> \<not> list_ex line_terminator dat"
    by blast
next
  assume "\<exists>mimeType dat. s = ''data:'' @ mimeType @ '';base64,'' @ dat \<and> mimeType \<noteq> [] \<and> dat \<noteq> [] \<and>
      \<not> list_ex line_terminator mimeType \<and> \<not> list_ex line_terminator dat"
  then obtain m d where s: "s = ''data:'' @ m @ '';base64,'' @ d" and m: "m \<noteq> []" and d: "d \<noteq> []"
    and nl: "\<not> list_ex line_terminator m" "\<not> list_ex line_terminator d" by blast
  define rest where "rest = drop 5 s"
  have rest: "rest = m @ '';base64,'' @ d" using s by (simp add: rest_def)
  have pre: "take 5 s = ''data:''" using s by simp
  have nlr: "\<not> list_ex line_terminator rest"
    using nl by (auto simp: rest list_ex_iff line_terminator_def)
  have len: "length rest = length m + 8 + length d" by (simp add: rest)
  have lm: "0 < length m" "0 < length d" using m d by simp_all
  have "1 \<le> length m \<and> length m < length rest - 8" using lm len by arith
  then have cand: "length m \<in> set (rev [1 ..< length rest - 8])" by simp
  have hit: "take 8 (drop (length m) rest) = '';base64,''" by (simp add: rest)
  have "List.find (\<lambda>i. take 8 (drop i rest) = '';base64,'') (rev [1 ..< length rest - 8]) \<noteq> None"
    using cand hit by (auto simp: find_None_iff)
  then show "\<exists>r. parseBase64 s = Some r"
    using pre nlr by (auto simp: parseBase64_def Let_def rest_def)
qed

lemma parseBase64_None_iff:
  "parseBase64 s = None \<longleftrightarrow>
   \<not> (\<exists>mimeType dat. s = ''data:'' @ mimeType @ '';base64,'' @ dat \<and> mimeType \<noteq> [] \<and>
        dat \<noteq> [] \<and> \<not> list_ex line_terminator mimeType \<and> \<not> list_ex line_terminator dat)"
  using parseBase64_Some_iff [of s] by (cases "parseBase64 s") simp_all

section \<open>The claims\<close>

subsection \<open>Claim C1\<close>

text \<open>
  Claim C1. Whenever \<^verbatim>\<open>handleGenerateAll\<close> runs (its guard does not hold) and the
  prompt derivation succeeds, every platform ends with status \<open>success\<close> and a non-empty
  \<open>imageUrl\<close>, or with status \<open>error\<close> and a non-empty \<open>errorMsg\<close>; so none is left
  \<open>loading\<close> or \<open>idle\<close>.
\<close>

theorem generateAll_settles_every_platform:
  assumes "\<not> guard_generateAll userInput selectedImage"
    and "fst (generateVisualPrompts be JSON_parse userInput (or_undefined selectedImage)
           (derivation_call userInput selectedImage w)) = Inr visualPrompts"
  shows "(status (images (handleGenerateAll be JSON_parse userInput selectedImage w) k) = success \<and>
          (\<exists>url. imageUrl (images (handleGenerateAll be JSON_parse userInput selectedImage w) k)
                   = Some url \<and> url \<noteq> [])) \<or>
         (status (images (handleGenerateAll be JSON_parse userInput selectedImage w) k) = error \<and>
          (\<exists>msg. errorMsg (images (handleGenerateAll be JSON_parse userInput selectedImage w) k)
                   = Some msg \<and> msg \<noteq> []))"
proof -
  obtain es es1 r1 es2 r2 es3 r3 es4 r4 where
    ne: "\<And>url. r1 = Inr url \<or> r2 = Inr url \<or> r3 = Inr url \<or> r4 = Inr url \<Longrightarrow> url \<noteq> []"
    and im: "\<And>k. images (handleGenerateAll be JSON_parse userInput selectedImage w) k =
       rendered (platforms visualPrompts k)
         (case k of linkedin \<Rightarrow> r1 | twitter \<Rightarrow> r2 | instagram \<Rightarrow> r3 | blog \<Rightarrow> r4)
         (spread (spread (images w k) reset_state) (loading_state (platforms visualPrompts k)))"
    using handleGenerateAll_success [OF assms] by metis
  have settled: "(status (rendered prm r s) = success \<and>
                   (\<exists>url. imageUrl (rendered prm r s) = Some url \<and> url \<noteq> [])) \<or>
                 (status (rendered prm r s) = error \<and>
                   (\<exists>msg. errorMsg (rendered prm r s) = Some msg \<and> msg \<noteq> []))"
    if "\<And>url. r = Inr url \<Longrightarrow> url \<noteq> []" for prm r s
    using that
    by (cases r) (simp_all add: rendered_def spread_def settled_state_def success_state_def
        error_state_def loading_state_def)
  show ?thesis
    unfolding im by (rule settled) (cases k; use ne in simp)
qed

text \<open>
  The run with the sample backend satisfies both hypotheses.
\<close>

theorem generateAll_settles_every_platform_witness:
  "\<not> guard_generateAll ''eco packaging'' None \<and>
   fst (generateVisualPrompts demo_backend demo_parse ''eco packaging'' (or_undefined None)
          (derivation_call ''eco packaging'' None initial_world)) = Inr demo_prompts \<and>
   ((status (images ok_run instagram) = success \<and>
       (\<exists>url. imageUrl (images ok_run instagram) = Some url \<and> url \<noteq> [])) \<or>
    (status (images ok_run instagram) = error \<and>
       (\<exists>msg. errorMsg (images ok_run instagram) = Some msg \<and> msg \<noteq> [])))"
  using generateAll_settles_every_platform [OF guard_eco demo_derivation,
      where w = initial_world and k = instagram] guard_eco demo_derivation
  unfolding ok_run_def by blast

subsection \<open>Claim C2\<close>

text \<open>
  Claim C2. After a successful prompt derivation the component's view of the run is fixed:
  the start, the plan, and then one turn per row of \<open>PLATFORMS\<close>, in the order of the table
  (linkedin, twitter, instagram, blog). In each turn the render is called with the prompt
  and the aspect ratio of the row, its promise settles, the state is written, and 1500 ms
  pass, before the call of the next turn is made.
\<close>

theorem generateAll_renders_in_table_order:
  assumes "\<not> guard_generateAll userInput selectedImage"
    and "fst (generateVisualPrompts be JSON_parse userInput (or_undefined selectedImage)
           (derivation_call userInput selectedImage w)) = Inr visualPrompts"
  shows "map key PLATFORMS = [linkedin, twitter, instagram, blog] \<and>
         (\<exists>rs. length rs = length PLATFORMS \<and>
            component_view False
              (new_events w (handleGenerateAll be JSON_parse userInput selectedImage w)) =
            start_events userInput selectedImage @ plan_events visualPrompts @
            concat (map2 (paced_render (or_undefined selectedImage) visualPrompts) PLATFORMS rs))"
proof -
  let ?w' = "handleGenerateAll be JSON_parse userInput selectedImage w"
  let ?ref = "or_undefined selectedImage"
  obtain es es1 r1 es2 r2 es3 r3 es4 r4 where
    sv: "list_all service_event es" "list_all service_event es1" "list_all service_event es2"
        "list_all service_event es3" "list_all service_event es4"
    and tr: "trace ?w' =
       trace w @ success_events userInput selectedImage visualPrompts es es1 r1 es2 r2 es3 r3 es4
           r4"
    using handleGenerateAll_success [OF assms] by metis
  have ne: "new_events w ?w' =
       success_events userInput selectedImage visualPrompts es es1 r1 es2 r2 es3 r3 es4 r4"
    by (rule new_events_append) (rule tr)
  have view: "component_view False (new_events w ?w') =
      start_events userInput selectedImage @ plan_events visualPrompts @
      concat (map2 (paced_render ?ref visualPrompts) PLATFORMS [r1, r2, r3, r4])"
    unfolding ne
    by (simp add: success_events_def start_events_def plan_events_def render_events_def
        paced_render_def
        PLATFORMS_def component_view_service sv)
  have "map key PLATFORMS = [linkedin, twitter, instagram, blog]"
    by (simp add: PLATFORMS_def)
  moreover have "length [r1, r2, r3, r4] = length PLATFORMS" by (simp add: PLATFORMS_def)
  ultimately show ?thesis using view by blast
qed

text \<open>
  The run with the sample backend satisfies both hypotheses.
\<close>

theorem generateAll_renders_in_table_order_witness:
  "\<not> guard_generateAll ''eco packaging'' None \<and>
   fst (generateVisualPrompts demo_backend demo_parse ''eco packaging'' (or_undefined None)
          (derivation_call ''eco packaging'' None initial_world)) = Inr demo_prompts \<and>
   map key PLATFORMS = [linkedin, twitter, instagram, blog] \<and>
   (\<exists>rs. length rs = length PLATFORMS \<and>
      component_view False (new_events initial_world ok_run) =
        start_events ''eco packaging'' None @ plan_events demo_prompts @
        concat (map2 (paced_render (or_undefined None) demo_prompts) PLATFORMS rs))"
  using generateAll_renders_in_table_order [OF guard_eco demo_derivation,
      where w = initial_world] guard_eco demo_derivation
  unfolding ok_run_def by blast

subsection \<open>Claim C3\<close>

text \<open>
  Claim C3. If the operation fails with a quota error in the world it is first called in,
  fails with a quota error again when called after a wait of \<open>initialDelay\<close>, and succeeds
  when called after a further wait of \<open>initialDelay * 2\<close>, then \<^verbatim>\<open>withRetry\<close> with three
  attempts returns that success, in the world the third call left. When the operation does
  not wait by itself, the waits of the run are \<open>initialDelay\<close> and \<open>initialDelay * 2\<close>, in
  this order, and their sum is added to the time waited.
\<close>

theorem withRetry_two_quota_failures_then_success:
  assumes "operation w = (Inl e1, w1)" and "isQuotaError e1"
    and "operation (wait initialDelay w1) = (Inl e2, w2)" and "isQuotaError e2"
    and "operation (wait (initialDelay * 2) w2) = (Inr v, w3)"
    and "waits (trace w1) = waits (trace w)"
    and "waits (trace w2) = waits (trace (wait initialDelay w1))"
    and "waits (trace w3) = waits (trace (wait (initialDelay * 2) w2))"
  shows "withRetry operation 3 initialDelay w = (Inr v, w3) \<and>
         waits (trace w3) = waits (trace w) @ [initialDelay, initialDelay * 2] \<and>
         sum_list (waits (trace w3)) = sum_list (waits (trace w)) +
             (initialDelay + initialDelay * 2)"
proof -
  have third: "withRetry_loop operation 3 initialDelay (Suc (Suc 0)) e2 (wait (initialDelay * 2) w2)
      = (Inr v, w3)"
    using assms(5) by (subst withRetry_loop.simps) simp
  have second: "withRetry_loop operation 3 initialDelay 1 e1 (wait initialDelay w1) = (Inr v, w3)"
    using assms(3,4) third by (subst withRetry_loop.simps) simp
  have first: "withRetry operation 3 initialDelay w = (Inr v, w3)"
    unfolding withRetry_def using assms(1,2) second by (subst withRetry_loop.simps) simp
  have ws: "waits (trace w3) = waits (trace w) @ [initialDelay, initialDelay * 2]"
    using assms(6,7,8) by (simp add: trace_wait waits_append)
  show ?thesis using first ws by simp
qed

text \<open>
  An image request against a backend that is over quota twice: the default delay of 2000
  gives the waits 2000 and 4000.
\<close>

theorem withRetry_two_quota_failures_then_success_witness:
  "fst (withRetry (generateImage_attempt quota_twice ''a cat'' ratio_1_1 None) 3 2000 initial_world)
     = Inr ''data:image/png;base64,AAAA'' \<and>
   waits (trace (snd (withRetry (generateImage_attempt quota_twice ''a cat'' ratio_1_1 None) 3 2000
      initial_world))) = [2000, 4000]"
proof -
  let ?op = "generateImage_attempt quota_twice ''a cat'' ratio_1_1 None"
  let ?w1 = "snd (?op initial_world)"
  let ?w2 = "snd (?op (wait 2000 ?w1))"
  let ?w3 = "snd (?op (wait (2000 * 2) ?w2))"
  let ?e = "ErrorObject (JNum 429) JUndefined (Some ''Too Many Requests'') None"
  have ev: "?op initial_world = (Inl ?e, ?w1)" "?op (wait 2000 ?w1) = (Inl ?e, ?w2)"
     "?op (wait (2000 * 2) ?w2) = (Inr ''data:image/png;base64,AAAA'', ?w3)"
    by (simp_all add: generateImage_attempt_def generateContent_def quota_twice_def log_def
        wait_def initial_world_def request_parts_def Let_def)
  have q: "isQuotaError ?e" by (simp add: isQuotaError_def)
  have ws: "waits (trace ?w1) = waits (trace initial_world)"
     "waits (trace ?w2) = waits (trace (wait 2000 ?w1))"
     "waits (trace ?w3) = waits (trace (wait (2000 * 2) ?w2))"
    by (simp_all add: generateImage_attempt_def generateContent_def quota_twice_def log_def
        wait_def initial_world_def request_parts_def Let_def)
  show ?thesis
    using withRetry_two_quota_failures_then_success [OF ev(1) q ev(2) q ev(3) ws]
    by (simp add: initial_world_def)
qed

subsection \<open>Claim C4\<close>

text \<open>
  Claim C4. If the first call of the operation fails with an error that is not a quota
  error, \<^verbatim>\<open>withRetry\<close> returns that error in the world this one call left: no wait, no
  second call, whatever the number of attempts allowed, as long as it allows one.
\<close>

theorem withRetry_other_error_once:
  assumes "operation w = (Inl e, w1)" and "\<not> isQuotaError e" and "1 \<le> retries"
  shows "withRetry operation retries initialDelay w = (Inl e, w1)"
  unfolding withRetry_def using assms by (subst withRetry_loop.simps) simp

text \<open>
  An image request answered without content parts: one request, one response, no wait.
\<close>

theorem withRetry_other_error_once_witness:
  "\<not> isQuotaError (Error ''No content parts returned'') \<and> (1::int) \<le> 3 \<and>
   withRetry (generateImage_attempt empty_backend ''a cat'' ratio_1_1 None) 3 2000 initial_world =
     (Inl (Error ''No content parts returned''),
      initial_world\<lparr>trace :=
        [Request \<lparr> model = ''gemini-2.5-flash-image'', parts = [TextPart ''a cat''],
                   config = ImageConfig ratio_1_1 \<rparr>,
         Response (Inr \<lparr> resp_text = None, resp_parts = None \<rparr>)]\<rparr>)"
proof -
  let ?op = "generateImage_attempt empty_backend ''a cat'' ratio_1_1 None"
  let ?w1 = "initial_world\<lparr>trace :=
        [Request \<lparr> model = ''gemini-2.5-flash-image'', parts = [TextPart ''a cat''],
                   config = ImageConfig ratio_1_1 \<rparr>,
         Response (Inr \<lparr> resp_text = None, resp_parts = None \<rparr>)]\<rparr>"
  have ev: "?op initial_world = (Inl (Error ''No content parts returned''), ?w1)"
    by (simp add: generateImage_attempt_def generateContent_def empty_backend_def log_def
        initial_world_def request_parts_def Let_def)
  have nq: "\<not> isQuotaError (Error ''No content parts returned'')"
    by (simp add: Error_not_quota)
  have le: "(1::int) \<le> 3" by simp
  show ?thesis
    using withRetry_other_error_once [where operation = ?op and w = initial_world and initialDelay
        = 2000, OF ev nq le] nq
    by simp
qed

subsection \<open>Claim C5\<close>

text \<open>
  Claim C5. Whenever \<^verbatim>\<open>handleGenerateAll\<close> runs and the prompt derivation fails, every
  platform ends with status \<open>error\<close> and the message \<^verbatim>\<open>Failed to analyze context.\<close>, and
  \<^verbatim>\<open>generateImage\<close> is never called.
\<close>

theorem generateAll_derivation_failure:
  assumes "\<not> guard_generateAll userInput selectedImage"
    and "fst (generateVisualPrompts be JSON_parse userInput (or_undefined selectedImage)
           (derivation_call userInput selectedImage w)) = Inl e"
  shows "status (images (handleGenerateAll be JSON_parse userInput selectedImage w) k) = error \<and>
         errorMsg (images (handleGenerateAll be JSON_parse userInput selectedImage w) k)
           = Some ''Failed to analyze context.'' \<and>
         filter is_render_call
           (new_events w (handleGenerateAll be JSON_parse userInput selectedImage w)) = []"
proof -
  let ?w' = "handleGenerateAll be JSON_parse userInput selectedImage w"
  obtain es where sv: "list_all service_event es"
    and tr: "trace ?w' = trace w @ start_events userInput selectedImage @ Request
        (prompt_request userInput (or_undefined selectedImage)) # es @ failure_events e"
    and im: "\<And>k. images ?w' k =
       spread (spread (images w k) reset_state) (error_state ''Failed to analyze context.'')"
    using handleGenerateAll_failure [OF assms] by metis
  have "new_events w ?w' = start_events userInput selectedImage @ Request (prompt_request userInput
      (or_undefined selectedImage)) # es @ failure_events e"
    by (rule new_events_append) (rule tr)
  then have "filter is_render_call (new_events w ?w') = []"
    by (simp add: start_events_def failure_events_def render_calls_service sv)
  then show ?thesis by (simp add: im spread_def error_state_def)
qed

text \<open>
  Against the backend that answers with nothing the derivation fails.
\<close>

theorem generateAll_derivation_failure_witness:
  "\<not> guard_generateAll ''eco packaging'' None \<and>
   fst (generateVisualPrompts empty_backend demo_parse ''eco packaging'' (or_undefined None)
          (derivation_call ''eco packaging'' None initial_world))
     = Inl (Error ''No text returned from Gemini'') \<and>
   status (images (handleGenerateAll empty_backend demo_parse ''eco packaging'' None initial_world)
             blog) = error \<and>
   errorMsg (images (handleGenerateAll empty_backend demo_parse ''eco packaging'' None
                initial_world) blog) = Some ''Failed to analyze context.'' \<and>
   filter is_render_call
     (new_events initial_world
        (handleGenerateAll empty_backend demo_parse ''eco packaging'' None initial_world)) = []"
  using generateAll_derivation_failure [OF guard_eco empty_derivation,
      where w = initial_world and k = blog] guard_eco empty_derivation
  by blast

subsection \<open>Claim C6\<close>

text \<open>
  Claim C6, as the code has it. Whenever \<^verbatim>\<open>handleGenerateAll\<close> runs, a request is sent
  to the backend, and what precedes the first request is \<open>start_events\<close>; in the state these
  leave, every platform has status \<open>idle\<close> and no \<open>errorMsg\<close>, while its \<open>imageUrl\<close> and its
  \<open>prompt\<close> are the ones it had before.
\<close>

theorem generateAll_resets_before_first_request:
  assumes "\<not> guard_generateAll userInput selectedImage"
  shows "before_first_request
           (new_events w (handleGenerateAll be JSON_parse userInput selectedImage w))
           = start_events userInput selectedImage \<and>
         length (start_events userInput selectedImage)
           < length (new_events w (handleGenerateAll be JSON_parse userInput selectedImage w)) \<and>
         status (replay (start_events userInput selectedImage) (images w) k) = idle \<and>
         errorMsg (replay (start_events userInput selectedImage) (images w) k) = None \<and>
         imageUrl (replay (start_events userInput selectedImage) (images w) k)
           = imageUrl (images w k) \<and>
         prompt (replay (start_events userInput selectedImage) (images w) k)
           = prompt (images w k)"
proof -
  obtain rest where n: "new_events w (handleGenerateAll be JSON_parse userInput selectedImage w) =
      start_events userInput selectedImage @
      Request (prompt_request userInput (or_undefined selectedImage)) # rest"
    using handleGenerateAll_prefix [OF assms] by blast
  show ?thesis
    unfolding n before_first_request_start replay_start_events
    by (simp add: spread_def reset_state_def)
qed

text \<open>
  A second run after a run in which every render succeeded.
\<close>

theorem generateAll_resets_before_first_request_witness:
  "\<not> guard_generateAll ''eco packaging'' None \<and>
   before_first_request
     (new_events ok_run (handleGenerateAll demo_backend demo_parse ''eco packaging'' None ok_run))
     = start_events ''eco packaging'' None \<and>
   status (replay (start_events ''eco packaging'' None) (images ok_run) linkedin) = idle \<and>
   errorMsg (replay (start_events ''eco packaging'' None) (images ok_run) linkedin) = None \<and>
   imageUrl (replay (start_events ''eco packaging'' None) (images ok_run) linkedin)
     = imageUrl (images ok_run linkedin)"
  using generateAll_resets_before_first_request [OF guard_eco,
      where w = ok_run and k = linkedin and be = demo_backend and JSON_parse = demo_parse]
    guard_eco
  by blast

text \<open>
  Claim C6 as stated fails: in that second run the image and the prompt of the first run
  are still in the state when the first request is sent.
\<close>

theorem reset_keeps_image_counterexample:
  "\<not> guard_generateAll ''eco packaging'' None \<and>
   imageUrl (replay
      (before_first_request
         (new_events ok_run
            (handleGenerateAll demo_backend demo_parse ''eco packaging'' None ok_run)))
      (images ok_run) linkedin) = Some ''data:image/png;base64,AAAA'' \<and>
   prompt (replay
      (before_first_request
         (new_events ok_run
            (handleGenerateAll demo_backend demo_parse ''eco packaging'' None ok_run)))
      (images ok_run) linkedin) = Some ''subject in the right third''"
proof -
  obtain rest where n: "new_events ok_run
      (handleGenerateAll demo_backend demo_parse ''eco packaging'' None ok_run) =
      start_events ''eco packaging'' None @
      Request (prompt_request ''eco packaging'' (or_undefined None)) # rest"
    using handleGenerateAll_prefix [OF guard_eco] by blast
  show ?thesis
    unfolding n before_first_request_start replay_start_events
    by (simp add: guard_eco ok_run_images spread_def reset_state_def demo_prompts_def)
qed

subsection \<open>Claim C7\<close>

text \<open>
  Claim C7: status \<open>success\<close> implies that \<open>imageUrl\<close> is set and \<open>errorMsg\<close> is absent,
  in every reachable state. The code breaks this on one path. Take the run in which the
  prompts are derived and every render fails, so that linkedin ends in status \<open>error\<close>
  with the message \<^verbatim>\<open>Generation failed.\<close>; then regenerate linkedin alone, with a
  backend that returns an image. \<^verbatim>\<open>triggerImageGeneration\<close> writes the status and the
  image and nothing else, so the world reached has linkedin in status \<open>success\<close> with the
  old message still set. The full pipeline does not do this
  (\<open>handleGenerateAll_success_has_no_error\<close>): its reset clears the message first.
\<close>

theorem regenerate_after_failed_render_keeps_errorMsg:
  "reachable (handleRegenerateSingle demo_backend None linkedin failed_run) \<and>
   status (images failed_run linkedin) = error \<and>
   errorMsg (images failed_run linkedin) = Some ''Generation failed.'' \<and>
   status (images (handleRegenerateSingle demo_backend None linkedin failed_run) linkedin) = success
       \<and>
   imageUrl (images (handleRegenerateSingle demo_backend None linkedin failed_run) linkedin)
     = Some ''data:image/png;base64,AAAA'' \<and>
   errorMsg (images (handleRegenerateSingle demo_backend None linkedin failed_run) linkedin)
     = Some ''Generation failed.''"
  by (simp add: stale_error_after_regenerate failed_run_images
      reachable.regenerate [OF reachable_failed_run])

text \<open>
  What is left of the invariant holds on every path. In every state the application has
  gone through on its way to a reachable world (the replay of any prefix of its trace),
  status \<open>success\<close> implies that \<open>imageUrl\<close> is set, status \<open>error\<close> implies that
  \<open>errorMsg\<close> is set, and \<open>imageUrl\<close> is the image of the last successful render of the
  platform, or absent when there was none. The state of the world is the replay of its
  whole trace.
\<close>

theorem reachable_state_invariant:
  assumes "reachable w"
  shows "images w = replay (trace w) (images initial_world) \<and>
         (status (replay (take n (trace w)) (images initial_world) k) = success \<longrightarrow>
            imageUrl (replay (take n (trace w)) (images initial_world) k) \<noteq> None) \<and>
         (status (replay (take n (trace w)) (images initial_world) k) = error \<longrightarrow>
            errorMsg (replay (take n (trace w)) (images initial_world) k) \<noteq> None) \<and>
         imageUrl (replay (take n (trace w)) (images initial_world) k)
           = last_render k (take n (trace w))"
proof -
  from reachable_sound [OF assms]
  have s: "list_all sound_event (trace w)"
    and i: "images w = replay (trace w) (images initial_world)" by simp_all
  from s have "list_all sound_event (take n (trace w))"
    by (auto simp: list_all_iff dest: in_set_takeD)
  then show ?thesis by (rule conjI [OF i sound_replay_invariant])
qed

text \<open>
  The run in which every render succeeds and the run in which every render fails, at
  their ends.
\<close>

theorem reachable_state_invariant_witness:
  "reachable ok_run \<and>
   images ok_run = replay (trace ok_run) (images initial_world) \<and>
   status (replay (trace ok_run) (images initial_world) twitter) = success \<and>
   imageUrl (replay (trace ok_run) (images initial_world) twitter)
     = Some ''data:image/png;base64,AAAA'' \<and>
   last_render twitter (trace ok_run) = Some ''data:image/png;base64,AAAA'' \<and>
   reachable failed_run \<and>
   status (replay (trace failed_run) (images initial_world) twitter) = error \<and>
   errorMsg (replay (trace failed_run) (images initial_world) twitter)
     = Some ''Generation failed.'' \<and>
   last_render twitter (trace failed_run) = None"
proof -
  from reachable_state_invariant [OF reachable_ok_run,
      where n = "length (trace ok_run)" and k = twitter]
  have ok: "images ok_run = replay (trace ok_run) (images initial_world)"
    "imageUrl (replay (trace ok_run) (images initial_world) twitter)
       = last_render twitter (trace ok_run)"
    by simp_all
  from reachable_state_invariant [OF reachable_failed_run,
      where n = "length (trace failed_run)" and k = twitter]
  have failed: "images failed_run = replay (trace failed_run) (images initial_world)"
    "imageUrl (replay (trace failed_run) (images initial_world) twitter)
       = last_render twitter (trace failed_run)"
    by simp_all
  have "status (images ok_run twitter) = success"
    "imageUrl (images ok_run twitter) = Some ''data:image/png;base64,AAAA''"
    "status (images failed_run twitter) = error"
    "errorMsg (images failed_run twitter) = Some ''Generation failed.''"
    "imageUrl (images failed_run twitter) = None"
    by (simp_all add: ok_run_images failed_run_images)
  then show ?thesis
    unfolding ok(1) failed(1) ok(2) failed(2)
    using ok(1) reachable_ok_run reachable_failed_run by simp
qed

subsection \<open>Claim C8\<close>

text \<open>
  Claim C8. With a user input that is empty (or blank) and no reference image (or an empty
  one), \<^verbatim>\<open>handleGenerateAll\<close> returns the world unchanged: no state update, no event, no
  request.
\<close>

theorem generateAll_without_input_is_noop:
  assumes "trim userInput = []" and "selectedImage = None \<or> selectedImage = Some []"
  shows "handleGenerateAll be JSON_parse userInput selectedImage w = w"
  using assms by (auto simp: handleGenerateAll_def guard_generateAll_def or_undefined_def)

text \<open>
  The empty input without image, and a blank input with an empty image.
\<close>

theorem generateAll_without_input_is_noop_witness:
  "trim '''' = [] \<and>
   handleGenerateAll demo_backend demo_parse '''' None initial_world = initial_world \<and>
   trim ''  '' = [] \<and>
   handleGenerateAll demo_backend demo_parse ''  '' (Some '''') ok_run = ok_run"
proof -
  have t1: "trim '''' = []" and t2: "trim ''  '' = []"
    by (simp_all add: trim_def white_space_def)
  have n1: "(None :: string option) = None \<or> (None :: string option) = Some []" by simp
  have n2: "Some '''' = (None :: string option) \<or> Some '''' = Some []" by simp
  show ?thesis
    using generateAll_without_input_is_noop [OF t1 n1, of demo_backend demo_parse initial_world]
      generateAll_without_input_is_noop [OF t2 n2, of demo_backend demo_parse ok_run] t1 t2
    by simp
qed

subsection \<open>Claim C9\<close>

text \<open>
  Claim C9. When the platform has no prompt, or an empty one, \<^verbatim>\<open>handleRegenerateSingle\<close>
  returns the world unchanged. When it has a non-empty prompt, the handler is one
  \<^verbatim>\<open>triggerImageGeneration\<close> for that platform: \<^verbatim>\<open>generateImage\<close> is called once, with
  the stored prompt and the aspect ratio of the platform's row in \<open>PLATFORMS\<close>, every state
  update is for that platform, and the other platforms keep their state.
\<close>

theorem regenerateSingle_needs_prompt:
  "(prompt (images w k) = None \<or> prompt (images w k) = Some [] \<longrightarrow>
      handleRegenerateSingle be selectedImage k w = w) \<and>
   (\<forall>prm. prompt (images w k) = Some prm \<and> prm \<noteq> [] \<longrightarrow>
      (\<exists>cfg. List.find (\<lambda>p. key p = k) PLATFORMS = Some cfg \<and>
         handleRegenerateSingle be selectedImage k w =
           triggerImageGeneration be k prm (apiAspectRatio cfg) (or_undefined selectedImage) w \<and>
         filter is_render_call (new_events w (handleRegenerateSingle be selectedImage k w)) =
           [Invoke (GenerateImage prm (apiAspectRatio cfg) (or_undefined selectedImage))] \<and>
         (\<forall>k' p. SetImages k' p \<in> set (new_events w (handleRegenerateSingle be selectedImage k w))
            \<longrightarrow> k' = k) \<and>
         (\<forall>k'. k' \<noteq> k \<longrightarrow>
            images (handleRegenerateSingle be selectedImage k w) k' = images w k')))"
proof (intro conjI allI impI)
  assume "prompt (images w k) = None \<or> prompt (images w k) = Some []"
  then show "handleRegenerateSingle be selectedImage k w = w"
    by (auto simp: handleRegenerateSingle_def Let_def split: option.splits)
next
  fix prm
  assume p: "prompt (images w k) = Some prm \<and> prm \<noteq> []"
  obtain cfg where cfg: "List.find (\<lambda>p. key p = k) PLATFORMS = Some cfg"
    using find_platform [of k] by blast
  let ?t = "triggerImageGeneration be k prm (apiAspectRatio cfg) (or_undefined selectedImage) w"
  have h: "handleRegenerateSingle be selectedImage k w = ?t"
    using p cfg by (simp add: handleRegenerateSingle_def Let_def)
  obtain es r where e: "list_all service_event es"
    "trace ?t = trace w @ render_events k prm (apiAspectRatio cfg)
        (or_undefined selectedImage) es r"
    "images ?t = (images w)(k := rendered prm r (images w k))"
    using triggerImageGeneration_effect [where be = be and k = k and prm = prm and ar
        = "apiAspectRatio cfg" and ref = "or_undefined selectedImage" and w = w]
    by blast
  have n: "new_events w ?t = render_events k prm (apiAspectRatio cfg)
      (or_undefined selectedImage) es r"
    by (rule new_events_append) (rule e)
  show "\<exists>cfg. List.find (\<lambda>p. key p = k) PLATFORMS = Some cfg \<and>
         handleRegenerateSingle be selectedImage k w =
           triggerImageGeneration be k prm (apiAspectRatio cfg) (or_undefined selectedImage) w \<and>
         filter is_render_call (new_events w (handleRegenerateSingle be selectedImage k w)) =
           [Invoke (GenerateImage prm (apiAspectRatio cfg) (or_undefined selectedImage))] \<and>
         (\<forall>k' p. SetImages k' p \<in> set (new_events w (handleRegenerateSingle be selectedImage k w))
            \<longrightarrow> k' = k) \<and>
         (\<forall>k'. k' \<noteq> k \<longrightarrow>
            images (handleRegenerateSingle be selectedImage k w) k' = images w k')"
  proof (intro exI [of _ cfg] conjI allI impI)
    show "List.find (\<lambda>p. key p = k) PLATFORMS = Some cfg" by (rule cfg)
    show "handleRegenerateSingle be selectedImage k w = ?t" by (rule h)
    show "filter is_render_call (new_events w (handleRegenerateSingle be selectedImage k w)) =
           [Invoke (GenerateImage prm (apiAspectRatio cfg) (or_undefined selectedImage))]"
      unfolding h n by (rule render_calls_render_events) (rule e)
    show "k' = k" if "SetImages k' p \<in> set (new_events w
        (handleRegenerateSingle be selectedImage k w))"
      for k' p
      using that unfolding h n by (rule updates_render_events [OF e(1)])
    show "images (handleRegenerateSingle be selectedImage k w) k' = images w k'" if "k' \<noteq> k" for k'
      using that by (simp add: h e)
  qed
qed

text \<open>
  In the initial world nothing happens; after a full run instagram is rendered again, as a
  square.
\<close>

theorem regenerateSingle_needs_prompt_witness:
  "handleRegenerateSingle demo_backend None linkedin initial_world = initial_world \<and>
   filter is_render_call
     (new_events ok_run (handleRegenerateSingle demo_backend None instagram ok_run))
     = [Invoke (GenerateImage ''subject centered'' ratio_1_1 None)] \<and>
   images (handleRegenerateSingle demo_backend None instagram ok_run) linkedin
     = images ok_run linkedin"
proof -
  have p0: "prompt (images initial_world linkedin) = None"
    by (simp add: initial_world_def)
  have p1: "prompt (images ok_run instagram) = Some ''subject centered'' \<and>
            ''subject centered'' \<noteq> []"
    by (simp add: ok_run_images demo_prompts_def)
  have cfg: "List.find (\<lambda>p. key p = instagram) PLATFORMS = Some c \<Longrightarrow>
             apiAspectRatio c = ratio_1_1" for c
    by (auto simp: find_platform)
  have u: "or_undefined None = None" by (simp add: or_undefined_def)
  from regenerateSingle_needs_prompt [of initial_world linkedin demo_backend None] p0
  have a: "handleRegenerateSingle demo_backend None linkedin initial_world = initial_world"
    by blast
  from regenerateSingle_needs_prompt [of ok_run instagram demo_backend None] p1
  obtain c where c: "List.find (\<lambda>p. key p = instagram) PLATFORMS = Some c"
    "filter is_render_call
       (new_events ok_run (handleRegenerateSingle demo_backend None instagram ok_run)) =
     [Invoke (GenerateImage ''subject centered'' (apiAspectRatio c) (or_undefined None))]"
    "\<forall>k'. k' \<noteq> instagram \<longrightarrow>
       images (handleRegenerateSingle demo_backend None instagram ok_run) k' = images ok_run k'"
    by blast
  from c(3) have "images (handleRegenerateSingle demo_backend None instagram ok_run) linkedin
     = images ok_run linkedin" by simp
  with a c(2) cfg [OF c(1)] u show ?thesis by simp
qed

subsection \<open>Claim C10\<close>

text \<open>
  Claim C10. When \<^verbatim>\<open>parseBase64\<close> does not match the reference image, both service
  functions behave exactly as without an image: same result, same trace. The request is
  sent all the same, first thing, and it and every later request of the call carry the
  text part alone.
\<close>

theorem malformed_reference_image_is_dropped:
  assumes "parseBase64 referenceImage = None"
  shows "generateImage be prm ar (Some referenceImage) w = generateImage be prm ar None w \<and>
         generateVisualPrompts be JSON_parse ctx (Some referenceImage) w =
           generateVisualPrompts be JSON_parse ctx None w \<and>
         (\<exists>es. new_events w (snd (generateImage be prm ar (Some referenceImage) w)) =
                 Request \<lparr> model = ''gemini-2.5-flash-image'', parts = [TextPart prm],
                           config = ImageConfig ar \<rparr> # es \<and>
               (\<forall>rq. Request rq \<in> set es \<longrightarrow> parts rq = [TextPart prm])) \<and>
         (\<exists>es. new_events w (snd (generateVisualPrompts be JSON_parse ctx (Some referenceImage) w))
             =
                 Request \<lparr> model = ''gemini-3-flash-preview'', parts = [TextPart ctx],
                           config = PromptConfig \<rparr> # es \<and>
               (\<forall>rq. Request rq \<in> set es \<longrightarrow> parts rq = [TextPart ctx]))"
proof -
  have a1: "generateImage_attempt be prm ar (Some referenceImage)
      = generateImage_attempt be prm ar None"
    by (rule ext) (simp add: generateImage_attempt_def request_parts_unparsed [OF assms]
        request_parts_None)
  have a2: "generateVisualPrompts_attempt be JSON_parse ctx (Some referenceImage) =
            generateVisualPrompts_attempt be JSON_parse ctx None"
    by (rule ext) (simp add: generateVisualPrompts_attempt_def request_parts_unparsed [OF assms]
        request_parts_None)
  have r1: "image_request prm ar (Some referenceImage) =
              \<lparr> model = ''gemini-2.5-flash-image'', parts = [TextPart prm],
                config = ImageConfig ar \<rparr>"
    by (simp add: image_request_def request_parts_unparsed [OF assms])
  have r2: "prompt_request ctx (Some referenceImage) =
              \<lparr> model = ''gemini-3-flash-preview'', parts = [TextPart ctx],
                config = PromptConfig \<rparr>"
    by (simp add: prompt_request_def request_parts_unparsed [OF assms])
  obtain es1 where e1: "list_all (only_request (image_request prm ar (Some referenceImage))) es1"
    "trace (snd (generateImage be prm ar (Some referenceImage) w)) =
       trace w @ Request (image_request prm ar (Some referenceImage)) # es1"
    using generateImage_first_request by blast
  obtain es2 where e2: "list_all (only_request (prompt_request ctx (Some referenceImage))) es2"
    "trace (snd (generateVisualPrompts be JSON_parse ctx (Some referenceImage) w)) =
       trace w @ Request (prompt_request ctx (Some referenceImage)) # es2"
    using generateVisualPrompts_first_request by blast
  have p1: "\<forall>rq. Request rq \<in> set es1 \<longrightarrow> parts rq = [TextPart prm]"
  proof (intro allI impI)
    fix rq assume "Request rq \<in> set es1"
    then have "rq = image_request prm ar (Some referenceImage)"
      by (rule only_request_parts [OF e1(1)])
    then show "parts rq = [TextPart prm]" by (simp add: r1)
  qed
  have p2: "\<forall>rq. Request rq \<in> set es2 \<longrightarrow> parts rq = [TextPart ctx]"
  proof (intro allI impI)
    fix rq assume "Request rq \<in> set es2"
    then have "rq = prompt_request ctx (Some referenceImage)"
      by (rule only_request_parts [OF e2(1)])
    then show "parts rq = [TextPart ctx]" by (simp add: r2)
  qed
  have n1: "new_events w (snd (generateImage be prm ar (Some referenceImage) w)) =
      Request \<lparr> model = ''gemini-2.5-flash-image'', parts = [TextPart prm],
                config = ImageConfig ar \<rparr> # es1"
    using new_events_append [OF e1(2)] r1 by simp
  have n2: "new_events w (snd (generateVisualPrompts be JSON_parse ctx (Some referenceImage) w)) =
      Request \<lparr> model = ''gemini-3-flash-preview'', parts = [TextPart ctx],
                config = PromptConfig \<rparr> # es2"
    using new_events_append [OF e2(2)] r2 by simp
  show ?thesis
    using n1 n2 p1 p2 by (simp add: generateImage_def generateVisualPrompts_def a1 a2)
qed

text \<open>
  A file name instead of a data URI.
\<close>

theorem malformed_reference_image_is_dropped_witness:
  "parseBase64 ''photo.png'' = None \<and>
   generateImage demo_backend ''a cat'' ratio_1_1 (Some ''photo.png'') initial_world =
     generateImage demo_backend ''a cat'' ratio_1_1 None initial_world \<and>
   generateVisualPrompts demo_backend demo_parse ''eco packaging''
       (Some ''photo.png'') initial_world =
     generateVisualPrompts demo_backend demo_parse ''eco packaging'' None initial_world \<and>
   (\<exists>es. new_events initial_world
            (snd (generateImage demo_backend ''a cat'' ratio_1_1
                (Some ''photo.png'') initial_world)) =
          Request \<lparr> model = ''gemini-2.5-flash-image'', parts = [TextPart ''a cat''],
                    config = ImageConfig ratio_1_1 \<rparr> # es \<and>
          (\<forall>rq. Request rq \<in> set es \<longrightarrow> parts rq = [TextPart ''a cat'']))"
proof -
  have h: "parseBase64 ''photo.png'' = None"
    by (simp add: parseBase64_def)
  show ?thesis
    using malformed_reference_image_is_dropped [OF h, of demo_backend "''a cat''" ratio_1_1
        initial_world demo_parse "''eco packaging''"] h
    by blast
qed

end
